theory Spec2Isabelle
  imports Complex_Main "HOL-Library.Sublist"
begin

section \<open>ECMAScript strings\<close>

text \<open>
  A string of the program is a sequence of UTF-16 code units. The model keeps the code
  units below 256 (Latin-1), one \<^typ>\<open>char\<close> each; a code unit the model cannot
  hold, such as the arrow U+2192 of the inline pattern, does not occur in its strings.
  In that range the white space of \<open>\s\<close> and of \<open>trim()\<close> is TAB, LF, VT, FF, CR,
  SPACE and NBSP.
\<close>

definition isSpace :: "char \<Rightarrow> bool" where
  "isSpace c = (c = CHR 0x09 \<or> c = CHR 0x0A \<or> c = CHR 0x0B \<or> c = CHR 0x0C \<or>
                c = CHR 0x0D \<or> c = CHR 0x20 \<or> c = CHR 0xA0)"

definition isDigit :: "char \<Rightarrow> bool" where
  "isDigit c = (let n = (of_char c :: nat) in 48 \<le> n \<and> n \<le> 57)"

definition isAlpha :: "char \<Rightarrow> bool" where
  "isAlpha c = (let n = (of_char c :: nat) in (65 \<le> n \<and> n \<le> 90) \<or> (97 \<le> n \<and> n \<le> 122))"

text \<open>The class \<open>\w\<close>: letters, digits and the underscore.\<close>

definition isWord :: "char \<Rightarrow> bool" where
  "isWord c = (isAlpha c \<or> isDigit c \<or> c = CHR ''_'')"

text \<open>The line terminators, which the regular expression atom \<open>.\<close> does not match.\<close>

definition isLineTerminator :: "char \<Rightarrow> bool" where
  "isLineTerminator c = (c = CHR 0x0A \<or> c = CHR 0x0D)"

text \<open>
  \<open>toLowerCase\<close> on one code unit: \<open>A\<close>..\<open>Z\<close> and the Latin-1 capitals
  U+00C0..U+00DE (without the multiplication sign U+00D7) move up by 32.
\<close>

definition toLowerChar :: "char \<Rightarrow> char" where
  "toLowerChar c =
     (let n = (of_char c :: nat)
      in if (65 \<le> n \<and> n \<le> 90) \<or> (192 \<le> n \<and> n \<le> 222 \<and> n \<noteq> 215)
         then char_of (n + 32) else c)"

definition toLowerCase :: "string \<Rightarrow> string" where
  "toLowerCase s = map toLowerChar s"

definition trim :: "string \<Rightarrow> string" where
  "trim s = rev (dropWhile isSpace (rev (dropWhile isSpace s)))"

text \<open>\<open>s.includes(t)\<close>: \<open>t\<close> occurs in \<open>s\<close> as a contiguous run.\<close>

definition includesStr :: "string \<Rightarrow> string \<Rightarrow> bool" where
  "includesStr s t = sublist t s"

text \<open>\<open>xs.join(sep)\<close>.\<close>

fun join :: "string \<Rightarrow> string list \<Rightarrow> string" where
  "join sep [] = []"
| "join sep [x] = x"
| "join sep (x # y # ys) = x @ sep @ join sep (y # ys)"

text \<open>\<open>xs.findIndex(p)\<close>; \<open>None\<close> stands for the result \<open>-1\<close>.\<close>

definition findIndex :: "('a \<Rightarrow> bool) \<Rightarrow> 'a list \<Rightarrow> nat option" where
  "findIndex P xs =
     (if list_ex P xs then Some (length (takeWhile (\<lambda>x. \<not> P x) xs)) else None)"

text \<open>
  \<open>s.replace(/\s+/g, ' ')\<close>: every maximal run of white space becomes one space.
\<close>

function collapseSpaces :: "string \<Rightarrow> string" where
  "collapseSpaces [] = []"
| "collapseSpaces (c # cs) =
     (if isSpace c then CHR '' '' # collapseSpaces (dropWhile isSpace cs)
      else c # collapseSpaces cs)"
  by pat_completeness auto
termination
  by (relation "measure length") (auto simp: le_imp_less_Suc length_dropWhile_le)

text \<open>
  \<open>text.split(/\r?\n/)\<close>: the text is cut at every LF, and a CR right before the LF
  belongs to the separator.
\<close>

fun splitAtLF :: "string \<Rightarrow> string list" where
  "splitAtLF [] = [[]]"
| "splitAtLF (c # cs) =
     (if c = CHR 0x0A then [] # splitAtLF cs
      else (case splitAtLF cs of [] \<Rightarrow> [[c]] | l # ls \<Rightarrow> (c # l) # ls))"

definition dropFinalCR :: "string \<Rightarrow> string" where
  "dropFinalCR l = (if l \<noteq> [] \<and> last l = CHR 0x0D then butlast l else l)"

definition splitLines :: "string \<Rightarrow> string list" where
  "splitLines s = (let ps = splitAtLF s in map dropFinalCR (butlast ps) @ [last ps])"

text \<open>
  \<open>text.split(/\r?\n/).map(line => line.trim()).filter(Boolean)\<close>, as
  \<open>extractFromText\<close> and \<open>createTextData\<close> both compute it.
\<close>

definition nonBlankLines :: "string \<Rightarrow> string list" where
  "nonBlankLines s = filter (\<lambda>l. l \<noteq> []) (map trim (splitLines s))"

section \<open>FieldMatcher.ts\<close>

text \<open>
  \<open>normalizeFieldName\<close>: lower case, every run of underscores, white space and dashes
  becomes one underscore, everything outside \<open>[a-z0-9_]\<close> is removed, and the result is
  trimmed.
\<close>

definition isSeparator :: "char \<Rightarrow> bool" where
  "isSeparator c = (c = CHR ''_'' \<or> isSpace c \<or> c = CHR ''-'')"

function collapseSeparators :: "string \<Rightarrow> string" where
  "collapseSeparators [] = []"
| "collapseSeparators (c # cs) =
     (if isSeparator c then CHR ''_'' # collapseSeparators (dropWhile isSeparator cs)
      else c # collapseSeparators cs)"
  by pat_completeness auto
termination
  by (relation "measure length") (auto simp: le_imp_less_Suc length_dropWhile_le)

definition isFieldChar :: "char \<Rightarrow> bool" where
  "isFieldChar c =
     (let n = (of_char c :: nat) in (97 \<le> n \<and> n \<le> 122) \<or> (48 \<le> n \<and> n \<le> 57) \<or> c = CHR ''_'')"

definition normalizeFieldName :: "string \<Rightarrow> string" where
  "normalizeFieldName fieldName =
     trim (filter isFieldChar (collapseSeparators (toLowerCase fieldName)))"

text \<open>
  The fuzzy search of Fuse.js is a library outside the repository. It enters the model
  as a parameter: \<open>search q\<close> is the list \<open>fuse.search(q)\<close> returns, best first, each
  result with the \<open>name\<close> of the target field it found and its score.
\<close>

type_synonym fuse = "string \<Rightarrow> (string \<times> real) list"

record FieldMatch =
  sourceField :: string
  targetField :: string
  confidence :: real
  score :: real

text \<open>
  \<open>matchFields\<close>: the best result of every source field that has one, sorted by falling
  confidence. \<open>Array.prototype.sort\<close> is stable.
\<close>

fun bestMatches :: "fuse \<Rightarrow> string list \<Rightarrow> FieldMatch list" where
  "bestMatches search [] = []"
| "bestMatches search (sf # sfs) =
     (case search sf of
        [] \<Rightarrow> bestMatches search sfs
      | (name, sc) # _ \<Rightarrow>
          \<lparr>sourceField = sf, targetField = name, confidence = 1 - sc, score = sc\<rparr>
            # bestMatches search sfs)"

definition matchFields :: "fuse \<Rightarrow> string list \<Rightarrow> FieldMatch list" where
  "matchFields search sourceFields =
     sort_key (\<lambda>m. - confidence m) (bestMatches search sourceFields)"

section \<open>MetadataExtractor.ts\<close>

subsection \<open>Data\<close>

text \<open>
  A cell is \<open>string | number | boolean | null\<close>. \<open>String(n)\<close> of a number is the
  number-to-string conversion of the language, which the extractor only passes on; it is
  the parameter \<open>numStr\<close> of the functions below.
\<close>

datatype cell = CStr string | CNum real | CBool bool | CNull

datatype SourceType = Csv | Excel | Json | Txt | Pdf | ImageOcr

record ParsedTableData =
  headers :: "string list"
  rows :: "cell list list"
  rowCount :: nat
  columnCount :: nat
  sourceType :: "SourceType option"
  ocrText :: "string option"

record MetadataExtractionResult =
  placeName :: string
  location :: string
  placeConfidence :: real
  locationConfidence :: real

record HeaderMatch =
  index :: int
  hconfidence :: real

definition PLACE_ALIASES :: "string list" where
  "PLACE_ALIASES = [''place'', ''place_name'', ''name'', ''landmark'', ''monument'',
                    ''attraction'', ''site'', ''title'']"

definition LOCATION_ALIASES :: "string list" where
  "LOCATION_ALIASES = [''location'', ''city'', ''state'', ''country'', ''region'',
                       ''address'', ''loc'', ''area'']"

definition PLACE_PRIORITY :: "string list" where
  "PLACE_PRIORITY = [''place_name'', ''place'', ''landmark'', ''monument'', ''site'',
                     ''name'', ''title'', ''attraction'']"

definition LOCATION_PRIORITY :: "string list" where
  "LOCATION_PRIORITY = [''city'', ''location'', ''loc'', ''region'', ''state'',
                        ''address'', ''country'', ''area'']"

datatype Target = TargetPlaceName | TargetLocation

definition targetName :: "Target \<Rightarrow> string" where
  "targetName t = (case t of TargetPlaceName \<Rightarrow> ''placeName'' | TargetLocation \<Rightarrow> ''location'')"

definition emptyResult :: MetadataExtractionResult where
  "emptyResult = \<lparr>placeName = [], location = [], placeConfidence = 0, locationConfidence = 0\<rparr>"

subsection \<open>Cleaning a value\<close>

text \<open>
  \<open>value.replace(/\s+/g, ' ').replace(/^[:\-\s]+|[:\-\s]+$/g, '').trim()\<close>. The second
  replacement removes the run of colons, dashes and white space the string starts with
  and the run it ends with.
\<close>

definition isEdgeChar :: "char \<Rightarrow> bool" where
  "isEdgeChar c = (c = CHR '':'' \<or> c = CHR ''-'' \<or> isSpace c)"

definition stripEdges :: "string \<Rightarrow> string" where
  "stripEdges s = rev (dropWhile isEdgeChar (rev (dropWhile isEdgeChar s)))"

definition cleanValue :: "string \<Rightarrow> string" where
  "cleanValue v = trim (stripEdges (collapseSpaces v))"

subsection \<open>The table-header strategy\<close>

text \<open>\<open>String(value ?? '')\<close> of a cell.\<close>

definition cellString :: "(real \<Rightarrow> string) \<Rightarrow> cell \<Rightarrow> string" where
  "cellString numStr v =
     (case v of CStr s \<Rightarrow> s | CNum n \<Rightarrow> numStr n
      | CBool b \<Rightarrow> (if b then ''true'' else ''false'') | CNull \<Rightarrow> [])"

definition nonEmptyValueCount :: "(real \<Rightarrow> string) \<Rightarrow> cell list \<Rightarrow> nat" where
  "nonEmptyValueCount numStr row = length (filter (\<lambda>v. trim (cellString numStr v) \<noteq> []) row)"

text \<open>
  \<open>getBestDataRow\<close>: the only row, or the first row after a stable sort by falling
  count of non-blank cells. \<open>None\<close> is the \<open>undefined\<close> an empty array gives; the
  caller has returned before, when there is no row.
\<close>

definition getBestDataRow :: "(real \<Rightarrow> string) \<Rightarrow> cell list list \<Rightarrow> cell list option" where
  "getBestDataRow numStr rs =
     (case rs of
        [r] \<Rightarrow> Some r
      | _ \<Rightarrow> (case sort_key (\<lambda>r. - int (nonEmptyValueCount numStr r)) rs of
                [] \<Rightarrow> None | r # _ \<Rightarrow> Some r))"

definition readValueFromRow :: "(real \<Rightarrow> string) \<Rightarrow> cell list \<Rightarrow> int \<Rightarrow> string" where
  "readValueFromRow numStr row i =
     (if i < 0 \<or> i \<ge> int (length row) then []
      else cleanValue (cellString numStr (row ! nat i)))"

text \<open>
  \<open>findPriorityMatch\<close>: the outer loop runs over the priorities; for each priority the
  headers are searched for an equal one, then for one that contains it.
\<close>

fun findPriorityMatchFrom :: "nat \<Rightarrow> string list \<Rightarrow> string list \<Rightarrow> HeaderMatch" where
  "findPriorityMatchFrom priorityIndex normalizedHeaders [] = \<lparr>index = -1, hconfidence = 0\<rparr>"
| "findPriorityMatchFrom priorityIndex normalizedHeaders (priority # ps) =
     (case findIndex (\<lambda>h. h = priority) normalizedHeaders of
        Some headerIndex \<Rightarrow>
          \<lparr>index = int headerIndex,
           hconfidence = 0.96 - min (real priorityIndex * 0.01) 0.1\<rparr>
      | None \<Rightarrow>
          (case findIndex (\<lambda>h. includesStr h priority) normalizedHeaders of
             Some headerIndex \<Rightarrow>
               \<lparr>index = int headerIndex,
                hconfidence = 0.88 - min (real priorityIndex * 0.01) 0.1\<rparr>
           | None \<Rightarrow> findPriorityMatchFrom (Suc priorityIndex) normalizedHeaders ps))"

definition findPriorityMatch :: "string list \<Rightarrow> string list \<Rightarrow> HeaderMatch" where
  "findPriorityMatch normalizedHeaders priorities =
     findPriorityMatchFrom 0 normalizedHeaders priorities"

definition findHeaderMatch :: "fuse \<Rightarrow> string list \<Rightarrow> string list \<Rightarrow> Target \<Rightarrow> HeaderMatch" where
  "findHeaderMatch search hs aliases target =
     (let normalizedHeaders = map normalizeFieldName hs;
          priorityPatterns = (if target = TargetLocation then LOCATION_PRIORITY else PLACE_PRIORITY);
          preferredMatch = findPriorityMatch normalizedHeaders priorityPatterns
      in if index preferredMatch \<noteq> -1 then preferredMatch
         else case findIndex (\<lambda>h. list_ex (\<lambda>alias. h = alias) aliases) normalizedHeaders of
           Some i \<Rightarrow> \<lparr>index = int i, hconfidence = 0.95\<rparr>
         | None \<Rightarrow>
            (case findIndex (\<lambda>h. list_ex (\<lambda>alias. includesStr h alias) aliases) normalizedHeaders of
               Some i \<Rightarrow> \<lparr>index = int i, hconfidence = 0.82\<rparr>
             | None \<Rightarrow>
                (case List.find (\<lambda>m. targetField m = targetName target) (matchFields search hs) of
                   None \<Rightarrow> \<lparr>index = -1, hconfidence = 0\<rparr>
                 | Some best \<Rightarrow>
                     if confidence best < 0.55 then \<lparr>index = -1, hconfidence = 0\<rparr>
                     else \<lparr>index = (case findIndex (\<lambda>h. h = sourceField best) hs of
                                       None \<Rightarrow> -1 | Some i \<Rightarrow> int i),
                           hconfidence = confidence best\<rparr>)))"

definition extractFromTableData ::
  "(real \<Rightarrow> string) \<Rightarrow> fuse \<Rightarrow> ParsedTableData \<Rightarrow> MetadataExtractionResult" where
  "extractFromTableData numStr search d =
     (if headers d = [] \<or> rows d = [] then emptyResult
      else case getBestDataRow numStr (rows d) of
        None \<Rightarrow> emptyResult
      | Some row \<Rightarrow>
          (let placeMatch = findHeaderMatch search (headers d) PLACE_ALIASES TargetPlaceName;
               locationMatch = findHeaderMatch search (headers d) LOCATION_ALIASES TargetLocation;
               pn = readValueFromRow numStr row (index placeMatch);
               loc = readValueFromRow numStr row (index locationMatch)
           in \<lparr>placeName = pn, location = loc,
               placeConfidence = (if pn \<noteq> [] then hconfidence placeMatch else 0),
               locationConfidence = (if loc \<noteq> [] then hconfidence locationMatch else 0)\<rparr>))"

subsection \<open>Regular expressions\<close>

text \<open>
  The patterns of the extractor are matched the way the language matches them: by
  backtracking, the first way to match winning. \<open>rxm r (s, k)\<close> lists, in the order the
  matcher tries them, every way \<open>r\<close> matches a prefix of \<open>s\<close>: the rest of the string
  and the captures \<open>k\<close> grown by the groups closed on the way. \<open>Star\<close> is the greedy
  \<open>*\<close>, \<open>LazyStar\<close> is \<open>*?\<close>, \<open>AtEnd\<close> is \<open>$\<close>; an iteration that consumes
  nothing is refused, as the language does.
\<close>

datatype rx = Sym "char \<Rightarrow> bool" | Eps | AtEnd | Cat rx rx | Alt rx rx
  | Star rx | LazyStar rx | Grp nat rx

type_synonym mstate = "string \<times> (nat \<times> string) list"

function rxm :: "rx \<Rightarrow> mstate \<Rightarrow> mstate list" where
  "rxm (Sym p) st = (case fst st of [] \<Rightarrow> [] | c # cs \<Rightarrow> if p c then [(cs, snd st)] else [])"
| "rxm Eps st = [st]"
| "rxm AtEnd st = (if fst st = [] then [st] else [])"
| "rxm (Cat a b) st = concat (map (rxm b) (rxm a st))"
| "rxm (Alt a b) st = rxm a st @ rxm b st"
| "rxm (Star a) st =
     concat (map (rxm (Star a)) (filter (\<lambda>t. length (fst t) < length (fst st)) (rxm a st)))
       @ [st]"
| "rxm (LazyStar a) st =
     st # concat (map (rxm (LazyStar a))
                   (filter (\<lambda>t. length (fst t) < length (fst st)) (rxm a st)))"
| "rxm (Grp n a) st =
     map (\<lambda>t. (fst t, (n, take (length (fst st) - length (fst t)) (fst st)) # snd t))
       (rxm a st)"
  by pat_completeness auto
termination
  by (relation "measures [\<lambda>(r, st). size r, \<lambda>(r, st). length (fst st)]") auto

definition Plus :: "rx \<Rightarrow> rx" where
  "Plus a = Cat a (Star a)"

definition LazyPlus :: "rx \<Rightarrow> rx" where
  "LazyPlus a = Cat a (LazyStar a)"

definition Opt :: "rx \<Rightarrow> rx" where
  "Opt a = Alt a Eps"

fun seq :: "rx list \<Rightarrow> rx" where
  "seq [] = Eps"
| "seq [r] = r"
| "seq (r # rs) = Cat r (seq rs)"

fun oneOf :: "rx list \<Rightarrow> rx" where
  "oneOf [] = Sym (\<lambda>c. False)"
| "oneOf [r] = r"
| "oneOf (r # rs) = Alt r (oneOf rs)"

text \<open>A literal under the flag \<open>i\<close>; the literal is given in lower case.\<close>

fun lit :: "string \<Rightarrow> rx" where
  "lit [] = Eps"
| "lit [c] = Sym (\<lambda>x. toLowerChar x = c)"
| "lit (c # cs) = Cat (Sym (\<lambda>x. toLowerChar x = c)) (lit cs)"

definition dot :: rx where
  "dot = Sym (\<lambda>c. \<not> isLineTerminator c)"

definition ws :: rx where
  "ws = Sym isSpace"

text \<open>
  \<open>line.match(pattern)\<close> for a pattern that starts with \<open>^\<close>: the captures of the first
  match at the start of the line, or \<open>None\<close> for \<open>null\<close>.
\<close>

definition rxMatch :: "rx \<Rightarrow> string \<Rightarrow> (nat \<times> string) list option" where
  "rxMatch r s = (case rxm r (s, []) of [] \<Rightarrow> None | st # _ \<Rightarrow> Some (snd st))"

definition capture :: "(nat \<times> string) list \<Rightarrow> nat \<Rightarrow> string" where
  "capture k n = (case map_of k n of None \<Rightarrow> [] | Some v \<Rightarrow> v)"

text \<open>\<open>/^(?:place\s*name|place|landmark|monument|site|name)\s*[:\-]\s*(.+)$/i\<close>\<close>

definition LINE_PREFIX_place :: rx where
  "LINE_PREFIX_place =
     seq [oneOf [seq [lit ''place'', Star ws, lit ''name''], lit ''place'', lit ''landmark'',
                 lit ''monument'', lit ''site'', lit ''name''],
          Star ws, Sym (\<lambda>c. c = CHR '':'' \<or> c = CHR ''-''), Star ws, Grp 1 (Plus dot), AtEnd]"

text \<open>\<open>/^(?:location|city|state|country|region|address)\s*[:\-]\s*(.+)$/i\<close>\<close>

definition LINE_PREFIX_location :: rx where
  "LINE_PREFIX_location =
     seq [oneOf [lit ''location'', lit ''city'', lit ''state'', lit ''country'', lit ''region'',
                 lit ''address''],
          Star ws, Sym (\<lambda>c. c = CHR '':'' \<or> c = CHR ''-''), Star ws, Grp 1 (Plus dot), AtEnd]"

text \<open>
  \<open>/^(?:\d+\.\s*)?(.+?)\s*(?:->|\<rightarrow>)\s*(.+)$/i\<close>; of the two arrows only \<open>->\<close> can
  occur in a string of the model.
\<close>

definition PLACE_LOCATION_INLINE_PATTERN :: rx where
  "PLACE_LOCATION_INLINE_PATTERN =
     seq [Opt (seq [Plus (Sym isDigit), lit ''.'', Star ws]),
          Grp 1 (LazyPlus dot), Star ws, lit ''->'', Star ws, Grp 2 (Plus dot), AtEnd]"

subsection \<open>The text-pattern strategy\<close>

text \<open>
  \<open>.replace(/\s*[^\w\s,./()'-]+$/g, '')\<close>: when the string ends with characters outside
  the listed class, the run of them at the end goes, with the white space before it.
\<close>

definition isTrailingSymbol :: "char \<Rightarrow> bool" where
  "isTrailingSymbol c =
     (\<not> (isWord c \<or> isSpace c \<or> c = CHR '','' \<or> c = CHR ''.'' \<or> c = CHR ''/'' \<or>
         c = CHR ''('' \<or> c = CHR '')'' \<or> c = CHR 0x27 \<or> c = CHR ''-''))"

definition stripTrailingSymbols :: "string \<Rightarrow> string" where
  "stripTrailingSymbols s =
     (if s \<noteq> [] \<and> isTrailingSymbol (last s)
      then rev (dropWhile isSpace (dropWhile isTrailingSymbol (rev s)))
      else s)"

definition isLikelyPlaceName :: "string \<Rightarrow> bool" where
  "isLikelyPlaceName line =
     (if line = [] \<or> length line < 3 \<or> length line > 120 then False
      else let lower = toLowerCase line
           in if includesStr lower ''location'' \<or> includesStr lower ''address'' \<or>
                 includesStr lower ''city'' then False
              else real (length (filter isDigit line)) / real (length line) < 0.2)"

text \<open>
  \<open>/\b[a-z]{2}\b/i.test(line)\<close>: two letters with no word character before and none
  after. The flag tells whether the character before is a word character.
\<close>

fun hasTwoLetterToken :: "bool \<Rightarrow> string \<Rightarrow> bool" where
  "hasTwoLetterToken afterWord (a # b # rest) =
     ((\<not> afterWord \<and> isAlpha a \<and> isAlpha b \<and> (case rest of [] \<Rightarrow> True | c # _ \<Rightarrow> \<not> isWord c))
      \<or> hasTwoLetterToken (isWord a) (b # rest))"
| "hasTwoLetterToken afterWord _ = False"

definition isLikelyLocation :: "string \<Rightarrow> bool" where
  "isLikelyLocation line =
     (let lower = toLowerCase line
      in includesStr lower '','' \<or> includesStr lower ''city'' \<or> includesStr lower ''state'' \<or>
         includesStr lower ''country'' \<or> includesStr lower ''region'' \<or>
         hasTwoLetterToken False line)"

text \<open>The inline arrow test of one line: the result the function returns with, if any.\<close>

definition inlineResult :: "string \<Rightarrow> MetadataExtractionResult option" where
  "inlineResult line =
     (case rxMatch PLACE_LOCATION_INLINE_PATTERN line of
        None \<Rightarrow> None
      | Some k \<Rightarrow>
          if capture k 1 \<noteq> [] \<and> capture k 2 \<noteq> [] then
            (let inlinePlace = cleanValue (capture k 1);
                 inlineLocation = trim (stripTrailingSymbols (cleanValue (capture k 2)))
             in if inlinePlace \<noteq> [] \<and> inlineLocation \<noteq> []
                then Some \<lparr>placeName = inlinePlace, location = inlineLocation,
                           placeConfidence = 0.88, locationConfidence = 0.88\<rparr>
                else None)
          else None)"

definition prefixPlace :: "string \<Rightarrow> MetadataExtractionResult \<Rightarrow> MetadataExtractionResult" where
  "prefixPlace line st =
     (if placeName st = [] then
        (case rxMatch LINE_PREFIX_place line of
           None \<Rightarrow> st
         | Some k \<Rightarrow>
             if capture k 1 \<noteq> [] then
               st\<lparr>placeName := cleanValue (capture k 1),
                  placeConfidence := (if cleanValue (capture k 1) \<noteq> [] then 0.9 else 0)\<rparr>
             else st)
      else st)"

definition prefixLocation :: "string \<Rightarrow> MetadataExtractionResult \<Rightarrow> MetadataExtractionResult" where
  "prefixLocation line st =
     (if location st = [] then
        (case rxMatch LINE_PREFIX_location line of
           None \<Rightarrow> st
         | Some k \<Rightarrow>
             if capture k 1 \<noteq> [] then
               st\<lparr>location := cleanValue (capture k 1),
                  locationConfidence := (if cleanValue (capture k 1) \<noteq> [] then 0.9 else 0)\<rparr>
             else st)
      else st)"

text \<open>
  The loop over the lines. \<open>Inl r\<close>: the function returned \<open>r\<close> from inside the loop;
  \<open>Inr st\<close>: the loop ended, by \<open>break\<close> or at the last line, with the four variables
  \<open>st\<close>.
\<close>

fun scanLines ::
  "string list \<Rightarrow> MetadataExtractionResult \<Rightarrow> MetadataExtractionResult + MetadataExtractionResult"
where
  "scanLines [] st = Inr st"
| "scanLines (line # rest) st =
     (case inlineResult line of
        Some r \<Rightarrow> Inl r
      | None \<Rightarrow>
          (let st' = prefixLocation line (prefixPlace line st)
           in if placeName st' \<noteq> [] \<and> location st' \<noteq> [] then Inr st'
              else scanLines rest st'))"

definition likelyPlaceFallback ::
  "string list \<Rightarrow> MetadataExtractionResult \<Rightarrow> MetadataExtractionResult" where
  "likelyPlaceFallback lines st =
     (if placeName st = [] then
        (case List.find isLikelyPlaceName lines of
           None \<Rightarrow> st
         | Some likelyPlace \<Rightarrow>
             if likelyPlace \<noteq> []
             then st\<lparr>placeName := cleanValue likelyPlace, placeConfidence := 0.55\<rparr>
             else st)
      else st)"

definition likelyLocationFallback ::
  "string list \<Rightarrow> MetadataExtractionResult \<Rightarrow> MetadataExtractionResult" where
  "likelyLocationFallback lines st =
     (if location st = [] then
        (case List.find isLikelyLocation lines of
           None \<Rightarrow> st
         | Some likelyLocation \<Rightarrow>
             if likelyLocation \<noteq> []
             then st\<lparr>location := cleanValue likelyLocation, locationConfidence := 0.55\<rparr>
             else st)
      else st)"

definition extractFromText :: "string \<Rightarrow> MetadataExtractionResult" where
  "extractFromText text =
     (let lines = nonBlankLines text
      in case scanLines lines emptyResult of
           Inl r \<Rightarrow> r
         | Inr st \<Rightarrow> likelyLocationFallback lines (likelyPlaceFallback lines st))"

subsection \<open>Dispatch on the shape of the content\<close>

text \<open>
  The argument is \<open>unknown\<close>. The model has the shapes the function tells apart: a table
  (an object with array fields \<open>headers\<close> and \<open>rows\<close>), a string, an array of records,
  a record, and \<open>Other\<close> for what is neither an object nor a string. A record lists its
  own keys in the order \<open>Object.keys\<close> gives them, each with a cell as its value.
\<close>

datatype content =
    Table ParsedTableData
  | Text string
  | Records "(string \<times> cell) list list"
  | Object "(string \<times> cell) list"
  | Other

definition extractFromObject ::
  "(real \<Rightarrow> string) \<Rightarrow> fuse \<Rightarrow> (string \<times> cell) list \<Rightarrow> MetadataExtractionResult" where
  "extractFromObject numStr search record =
     (let hs = map fst record;
          row = map (\<lambda>key. case map_of record key of None \<Rightarrow> CNull | Some v \<Rightarrow> v) hs
      in extractFromTableData numStr search
           \<lparr>headers = hs, rows = [row], rowCount = 1, columnCount = length hs,
            sourceType = Some Json, ocrText = None\<rparr>)"

definition flattenedText :: "(real \<Rightarrow> string) \<Rightarrow> cell list list \<Rightarrow> string" where
  "flattenedText numStr rs =
     join [CHR 0x0A]
       (filter (\<lambda>v. v \<noteq> []) (map (\<lambda>v. trim (cellString numStr v)) (concat rs)))"

definition extractMetadataFromContent ::
  "(real \<Rightarrow> string) \<Rightarrow> fuse \<Rightarrow> content \<Rightarrow> MetadataExtractionResult" where
  "extractMetadataFromContent numStr search c =
     (case c of
        Table d \<Rightarrow>
          (let tableResult = extractFromTableData numStr search d
           in if placeName tableResult \<noteq> [] \<or> location tableResult \<noteq> [] then tableResult
              else case ocrText d of
                     Some t \<Rightarrow> if t \<noteq> [] then extractFromText t
                               else extractFromText (flattenedText numStr (rows d))
                   | None \<Rightarrow> extractFromText (flattenedText numStr (rows d)))
      | Text s \<Rightarrow> extractFromText s
      | Records rs \<Rightarrow>
          (case rs of [] \<Rightarrow> extractFromObject numStr search []
           | r # _ \<Rightarrow> extractFromObject numStr search r)
      | Object r \<Rightarrow> extractFromObject numStr search r
      | Other \<Rightarrow> emptyResult)"

text \<open>
  The form the claims speak of: every white-space character of the value is a single
  space that no white space follows, and the value neither starts nor ends with a colon,
  a dash or white space.
\<close>

fun singleSpaced :: "string \<Rightarrow> bool" where
  "singleSpaced [] = True"
| "singleSpaced [c] = (isSpace c \<longrightarrow> c = CHR '' '')"
| "singleSpaced (c # d # cs) =
     ((isSpace c \<longrightarrow> c = CHR '' '' \<and> \<not> isSpace d) \<and> singleSpaced (d # cs))"

definition tidyValue :: "string \<Rightarrow> bool" where
  "tidyValue v =
     (singleSpaced v \<and> (v = [] \<or> (\<not> isEdgeChar (hd v) \<and> \<not> isEdgeChar (last v))))"

text \<open>
  The same form, except that the value may end with a colon or a dash: single spaces
  only, no colon, dash or white space at the start, and no white space at the end.
\<close>

definition tidyExceptEnd :: "string \<Rightarrow> bool" where
  "tidyExceptEnd v =
     (singleSpaced v \<and> (v = [] \<or> (\<not> isEdgeChar (hd v) \<and> \<not> isSpace (last v))))"

section \<open>The parsers\<close>

subsection \<open>Data\<close>

text \<open>
  A \<open>File\<close> with its \<open>name\<close>, \<open>size\<close>, \<open>type\<close> and \<open>lastModified\<close>; the sizes are
  byte counts. The fields of \<open>FileMetadata\<close> carry the same names in the source.
\<close>

record File =
  name :: string
  fsize :: nat
  ftype :: string
  lastModified :: nat

record FileMetadata =
  mname :: string
  msize :: nat
  mtype :: string
  mlastModified :: nat

record FileFormat =
  extension :: string
  mimeType :: string
  validator :: "File \<Rightarrow> bool"

record ParserConfig =
  supportedFormats :: "FileFormat list"
  maxFileSize :: nat

text \<open>The constructors: \<open>config.maxFileSize ?? 10 * 1024 * 1024\<close>.\<close>

definition newParser :: "FileFormat list \<Rightarrow> nat option \<Rightarrow> ParserConfig" where
  "newParser formats maxSize =
     \<lparr>supportedFormats = formats,
      maxFileSize = (case maxSize of None \<Rightarrow> 10 * 1024 * 1024 | Some m \<Rightarrow> m)\<rparr>"

record ValidationResult =
  isValid :: bool
  errors :: "string list"

text \<open>
  What a \<open>catch\<close> receives: an \<open>Error\<close> with its message, or a thrown value that is no
  \<open>Error\<close>.
\<close>

datatype exn = Error string | NonError

datatype Details = ValidationDetails "string list" | ThrownDetails exn

record ParseError =
  code :: string
  message :: string
  details :: Details

record FileContent =
  raw :: ParsedTableData
  metadata :: FileMetadata

datatype ParseResult = Success FileContent | Failure ParseError

text \<open>The values \<open>JSON.parse\<close>, Papa Parse and SheetJS hand to the parser.\<close>

datatype jsvalue = JNull | JBool bool | JNum real | JStr string
  | JArr "jsvalue list" | JObj "(string \<times> jsvalue) list"

subsection \<open>Validation\<close>

definition digitChar :: "nat \<Rightarrow> char" where
  "digitChar d = char_of (48 + d)"

function showNat :: "nat \<Rightarrow> string" where
  "showNat n = (if n < 10 then [digitChar n] else showNat (n div 10) @ [digitChar (n mod 10)])"
  by pat_completeness auto
termination
  by (relation "measure id") auto

text \<open>
  \<open>(bytes / (1024 * 1024)).toFixed(2)\<close>. For a size below \<open>2^53\<close> the quotient is
  exact, and \<open>toFixed\<close> rounds its hundredths to the nearest integer, a tie upwards.
\<close>

definition toFixed2MB :: "nat \<Rightarrow> string" where
  "toFixed2MB bytes =
     (let h = (200 * bytes + 1048576) div 2097152
      in showNat (h div 100) @ ''.'' @ [digitChar (h mod 100 div 10), digitChar (h mod 10)])"

text \<open>\<open>filename.match(/\.([^.]+)$/)\<close>: what follows the last dot, if anything does.\<close>

definition getFileExtension :: "string \<Rightarrow> string" where
  "getFileExtension filename =
     (let r = takeWhile (\<lambda>c. c \<noteq> CHR ''.'') (rev filename)
      in if length r < length filename \<and> r \<noteq> [] then rev r else [])"

definition sizeErrors :: "ParserConfig \<Rightarrow> File \<Rightarrow> string list" where
  "sizeErrors cfg file =
     (if fsize file > maxFileSize cfg
      then [''File size ('' @ toFixed2MB (fsize file) @ ''MB) exceeds maximum allowed size of ''
              @ toFixed2MB (maxFileSize cfg) @ ''MB'']
      else [])
     @ (if fsize file = 0 then [''File is empty''] else [])"

definition formatError :: "ParserConfig \<Rightarrow> string" where
  "formatError cfg =
     ''File format not supported. Supported formats: ''
       @ join '', '' (map extension (supportedFormats cfg))"

text \<open>\<open>EnhancedFileParser.validate\<close>.\<close>

definition enhancedFormatMatch :: "ParserConfig \<Rightarrow> File \<Rightarrow> FileFormat option" where
  "enhancedFormatMatch cfg file =
     (let ext = getFileExtension (name file)
      in List.find (\<lambda>format. toLowerCase (extension format) = toLowerCase ext \<and>
                              (mimeType format = ftype file \<or> validator format file))
           (supportedFormats cfg))"

definition EnhancedFileParser_validate :: "ParserConfig \<Rightarrow> File \<Rightarrow> ValidationResult" where
  "EnhancedFileParser_validate cfg file =
     (let errs = sizeErrors cfg file
                 @ (case enhancedFormatMatch cfg file of
                      None \<Rightarrow> [formatError cfg] | Some _ \<Rightarrow> [])
      in \<lparr>isValid = (length errs = 0), errors = errs\<rparr>)"

text \<open>\<open>FileParser.validate\<close>.\<close>

definition fileParserFormatMatch :: "ParserConfig \<Rightarrow> File \<Rightarrow> FileFormat option" where
  "fileParserFormatMatch cfg file =
     (let fileExtension = toLowerCase (getFileExtension (name file))
      in List.find (\<lambda>format.
                      (toLowerCase (extension format) = fileExtension \<and>
                       mimeType format = ftype file)
                      \<or> validator format file)
           (supportedFormats cfg))"

definition FileParser_validate :: "ParserConfig \<Rightarrow> File \<Rightarrow> ValidationResult" where
  "FileParser_validate cfg file =
     (let errs = sizeErrors cfg file
                 @ (case fileParserFormatMatch cfg file of
                      None \<Rightarrow> [formatError cfg] | Some _ \<Rightarrow> [])
      in \<lparr>isValid = (length errs = 0), errors = errs\<rparr>)"

subsection \<open>The libraries and the browser\<close>

text \<open>
  Papa Parse, SheetJS, PDF.js, Tesseract.js, \<open>FileReader\<close> and \<open>JSON\<close> are outside the
  repository. Each enters as a field of the environment that says what the call gives
  for a file: a value, or the exception it throws or rejects with. A call is taken to
  come back.
\<close>

datatype PapaOutcome =
    PapaComplete "string list option" "(string \<times> jsvalue) list list"
  | PapaError string
  | PapaThrows exn

record PdfPage =
  getTextContent :: "exn + string option list"

record PdfDocument =
  numPages :: nat
  getPage :: "nat \<Rightarrow> exn + PdfPage"
  cleanup :: "exn option"
  destroy :: "exn option"

record OcrWorker =
  recognize :: "File \<Rightarrow> exn + string option"
  terminate :: "exn option"

text \<open>
  \<open>papaParse\<close>: the callback \<open>Papa.parse\<close> calls, \<open>complete\<close> with \<open>meta.fields\<close> and
  \<open>data\<close> or \<open>error\<close> with a message. \<open>sheetToJson\<close>: the rows
  \<open>XLSX.utils.sheet_to_json(worksheet, {header: 1})\<close> gives for the first sheet of the
  file, \<open>None\<close> being \<open>undefined\<close>. \<open>getDocument\<close>: the document of
  \<open>pdfjsLib.getDocument\<close>. \<open>getTextContent\<close>: \<open>textContent.items || []\<close>, each item
  with its \<open>str\<close> when that is a string. \<open>createWorker\<close>: \<open>loadTesseract\<close> followed
  by \<open>tesseract.createWorker('eng')\<close>. \<open>recognize\<close>: \<open>data?.text\<close>. \<open>stringify\<close> is
  \<open>JSON.stringify\<close> and \<open>jsString\<close> is \<open>String\<close>.
\<close>

record Env =
  hasDocument :: bool
  hasWindow :: bool
  stringify :: "jsvalue \<Rightarrow> string"
  jsString :: "jsvalue option \<Rightarrow> string"
  papaParse :: "File \<Rightarrow> PapaOutcome"
  sheetToJson :: "File \<Rightarrow> exn + jsvalue option list list"
  getDocument :: "File \<Rightarrow> exn + PdfDocument"
  readAsText :: "File \<Rightarrow> exn + string"
  jsonParse :: "string \<Rightarrow> exn + jsvalue"
  createWorker :: "exn + OcrWorker"

subsection \<open>The extractors of EnhancedFileParser\<close>

definition toCellValue :: "(jsvalue \<Rightarrow> string) \<Rightarrow> jsvalue option \<Rightarrow> cell" where
  "toCellValue str v =
     (case v of
        None \<Rightarrow> CNull
      | Some JNull \<Rightarrow> CNull
      | Some (JStr s) \<Rightarrow> CStr s
      | Some (JNum n) \<Rightarrow> CNum n
      | Some (JBool b) \<Rightarrow> CBool b
      | Some other \<Rightarrow> CStr (str other))"

definition createTextData :: "string \<Rightarrow> SourceType \<Rightarrow> ParsedTableData" where
  "createTextData text st =
     (let lines = nonBlankLines text
      in \<lparr>headers = [''Content''], rows = map (\<lambda>line. [CStr line]) lines,
          rowCount = length lines, columnCount = 1, sourceType = Some st,
          ocrText = (if st = ImageOcr then Some text else None)\<rparr>)"

definition parseCSV :: "Env \<Rightarrow> File \<Rightarrow> exn + ParsedTableData" where
  "parseCSV env file =
     (case papaParse env file of
        PapaComplete metaFields rowData \<Rightarrow>
          (let hs = (case metaFields of None \<Rightarrow> [] | Some fs \<Rightarrow> fs);
               rs = map (\<lambda>row. map (\<lambda>header. toCellValue (stringify env) (map_of row header)) hs)
                      rowData
           in Inr \<lparr>headers = hs, rows = rs, rowCount = length rs, columnCount = length hs,
                   sourceType = Some Csv, ocrText = None\<rparr>)
      | PapaError msg \<Rightarrow> Inl (Error (''CSV parsing failed: '' @ msg))
      | PapaThrows e \<Rightarrow> Inl e)"

definition parseExcel :: "Env \<Rightarrow> File \<Rightarrow> exn + ParsedTableData" where
  "parseExcel env file =
     (case sheetToJson env file of
        Inl e \<Rightarrow> Inl e
      | Inr jsonData \<Rightarrow>
          (case jsonData of
             [] \<Rightarrow> Inl (Error ''Excel file is empty'')
           | first # rest \<Rightarrow>
               (let hs = map (jsString env) first;
                    rs = map (\<lambda>row. map (toCellValue (stringify env)) row) rest
                in Inr \<lparr>headers = hs, rows = rs, rowCount = length rs,
                        columnCount = length hs, sourceType = Some Excel, ocrText = None\<rparr>)))"

text \<open>
  \<open>extractNativePdfText\<close>, the loop over the pages, and the \<open>finally\<close> block, which
  runs after the loop however it ended and whose exception replaces the loop's.
\<close>

definition extractNativePdfText :: "PdfPage \<Rightarrow> exn + string" where
  "extractNativePdfText page =
     (case getTextContent page of
        Inl e \<Rightarrow> Inl e
      | Inr textItems \<Rightarrow>
          Inr (trim (collapseSpaces
                 (join '' '' (map (\<lambda>item. case item of None \<Rightarrow> [] | Some s \<Rightarrow> s) textItems)))))"

fun collectPageTexts :: "PdfDocument \<Rightarrow> nat list \<Rightarrow> string list \<Rightarrow> exn + string list" where
  "collectPageTexts doc [] pageTexts = Inr pageTexts"
| "collectPageTexts doc (pageNumber # later) pageTexts =
     (case getPage doc pageNumber of
        Inl e \<Rightarrow> Inl e
      | Inr page \<Rightarrow>
          (case extractNativePdfText page of
             Inl e \<Rightarrow> Inl e
           | Inr nativeText \<Rightarrow>
               collectPageTexts doc later
                 (if nativeText \<noteq> [] then pageTexts @ [nativeText] else pageTexts)))"

definition releaseDocument :: "PdfDocument \<Rightarrow> exn + 'a \<Rightarrow> exn + 'a" where
  "releaseDocument doc body =
     (case cleanup doc of
        Some e \<Rightarrow> Inl e
      | None \<Rightarrow> (case destroy doc of Some e \<Rightarrow> Inl e | None \<Rightarrow> body))"

text \<open>\<open>pageTexts.join('\n')\<close> of a document, before it is trimmed.\<close>

definition nativePdfText :: "PdfDocument \<Rightarrow> exn + string" where
  "nativePdfText doc =
     (case releaseDocument doc (collectPageTexts doc [1..<Suc (numPages doc)] []) of
        Inl e \<Rightarrow> Inl e
      | Inr pageTexts \<Rightarrow> Inr (join [CHR 0x0A] pageTexts))"

definition parsePDF :: "Env \<Rightarrow> File \<Rightarrow> exn + ParsedTableData" where
  "parsePDF env file =
     (if \<not> hasDocument env then Inl (Error ''PDF parsing requires a browser environment'')
      else case getDocument env file of
        Inl e \<Rightarrow> Inl e
      | Inr doc \<Rightarrow>
          (case nativePdfText doc of
             Inl e \<Rightarrow> Inl e
           | Inr joined \<Rightarrow>
               (let text = trim joined
                in if text = [] then Inl (Error ''No readable native text found in PDF'')
                   else Inr (createTextData text Pdf))))"

text \<open>
  A page is blank when it is read without an exception and every text item of it is
  white space; the text layer of a document is blank when every page is.
\<close>

definition blankPage :: "PdfDocument \<Rightarrow> nat \<Rightarrow> bool" where
  "blankPage doc p =
     (case getPage doc p of
        Inl e \<Rightarrow> False
      | Inr page \<Rightarrow>
          (case getTextContent page of
             Inl e \<Rightarrow> False
           | Inr textItems \<Rightarrow>
               list_all (\<lambda>item. case item of None \<Rightarrow> True | Some s \<Rightarrow> list_all isSpace s)
                 textItems))"

definition blankTextLayer :: "PdfDocument \<Rightarrow> bool" where
  "blankTextLayer doc = list_all (blankPage doc) [1..<Suc (numPages doc)]"

text \<open>
  \<open>createOcrWorker\<close> and \<open>parseImage\<close>; beside its result each gives the number of
  times \<open>createOcrWorker\<close> was called. The \<open>finally\<close> block terminates the worker.
\<close>

definition createOcrWorker :: "Env \<Rightarrow> (exn + OcrWorker) \<times> nat" where
  "createOcrWorker env =
     (if \<not> hasWindow env then (Inl (Error ''OCR requires a browser environment''), 1)
      else (createWorker env, 1))"

definition parseImage :: "Env \<Rightarrow> File \<Rightarrow> (exn + ParsedTableData) \<times> nat" where
  "parseImage env file =
     (case createOcrWorker env of
        (Inl e, calls) \<Rightarrow> (Inl e, calls)
      | (Inr worker, calls) \<Rightarrow>
          (let body =
                 (case recognize worker file of
                    Inl e \<Rightarrow> Inl e
                  | Inr data \<Rightarrow>
                      (let text = (case data of None \<Rightarrow> [] | Some t \<Rightarrow> trim t)
                       in if text = [] then Inl (Error ''No readable text found in image'')
                          else Inr (createTextData text ImageOcr)))
           in (case terminate worker of Some e \<Rightarrow> Inl e | None \<Rightarrow> body, calls)))"

definition parseText :: "Env \<Rightarrow> File \<Rightarrow> exn + ParsedTableData" where
  "parseText env file =
     (case readAsText env file of
        Inl e \<Rightarrow> Inl e
      | Inr text \<Rightarrow> Inr (createTextData text Txt))"

text \<open>
  \<open>parseJSON\<close>. \<open>Object.keys\<close> and the reading of a property throw a \<open>TypeError\<close> on
  \<open>null\<close>; the keys of an array or a string are its indices. Only own properties are
  modelled, and of an array or string only the indexed ones.
\<close>

definition nullTypeError :: exn where
  "nullTypeError = Error ''Cannot convert undefined or null to object''"

definition isObjectType :: "jsvalue \<Rightarrow> bool" where
  "isObjectType v = (case v of JNull \<Rightarrow> True | JArr _ \<Rightarrow> True | JObj _ \<Rightarrow> True | _ \<Rightarrow> False)"

definition objectKeys :: "jsvalue \<Rightarrow> exn + string list" where
  "objectKeys v =
     (case v of
        JNull \<Rightarrow> Inl nullTypeError
      | JObj kvs \<Rightarrow> Inr (map fst kvs)
      | JArr xs \<Rightarrow> Inr (map showNat [0..<length xs])
      | JStr s \<Rightarrow> Inr (map showNat [0..<length s])
      | _ \<Rightarrow> Inr [])"

definition getProp :: "jsvalue \<Rightarrow> string \<Rightarrow> exn + jsvalue option" where
  "getProp v key =
     (case v of
        JNull \<Rightarrow> Inl nullTypeError
      | JObj kvs \<Rightarrow> Inr (map_of kvs key)
      | JArr xs \<Rightarrow>
          Inr (case findIndex (\<lambda>i. showNat i = key) [0..<length xs] of
                 None \<Rightarrow> None | Some i \<Rightarrow> Some (xs ! i))
      | JStr s \<Rightarrow>
          Inr (case findIndex (\<lambda>i. showNat i = key) [0..<length s] of
                 None \<Rightarrow> None | Some i \<Rightarrow> Some (JStr [s ! i]))
      | _ \<Rightarrow> Inr None)"

text \<open>\<open>xs.map(f)\<close> for an \<open>f\<close> that may throw: the first exception ends the map.\<close>

fun mapE :: "('a \<Rightarrow> exn + 'b) \<Rightarrow> 'a list \<Rightarrow> exn + 'b list" where
  "mapE f [] = Inr []"
| "mapE f (x # xs) =
     (case f x of
        Inl e \<Rightarrow> Inl e
      | Inr y \<Rightarrow> (case mapE f xs of Inl e \<Rightarrow> Inl e | Inr ys \<Rightarrow> Inr (y # ys)))"

text \<open>\<open>headers.map(h => this.toCellValue(obj[h]))\<close>\<close>

definition rowOfObject :: "Env \<Rightarrow> string list \<Rightarrow> jsvalue \<Rightarrow> exn + cell list" where
  "rowOfObject env hs obj =
     mapE (\<lambda>h. case getProp obj h of
                 Inl e \<Rightarrow> Inl e
               | Inr v \<Rightarrow> Inr (toCellValue (stringify env) v)) hs"

text \<open>The table of an array of objects whose first element is \<open>first\<close>.\<close>

definition tableOfObjects :: "Env \<Rightarrow> jsvalue \<Rightarrow> jsvalue list \<Rightarrow> exn + ParsedTableData" where
  "tableOfObjects env first objs =
     (case objectKeys first of
        Inl e \<Rightarrow> Inl e
      | Inr hs \<Rightarrow>
          (case mapE (rowOfObject env hs) objs of
             Inl e \<Rightarrow> Inl e
           | Inr rs \<Rightarrow>
               Inr \<lparr>headers = hs, rows = rs, rowCount = length rs, columnCount = length hs,
                    sourceType = Some Json, ocrText = None\<rparr>))"

definition isArrayOfObjects :: "jsvalue option \<Rightarrow> bool" where
  "isArrayOfObjects v =
     (case v of Some (JArr (x # _)) \<Rightarrow> isObjectType x | _ \<Rightarrow> False)"

text \<open>The last two cases of \<open>parseJSON\<close>: a single object, or the error.\<close>

definition singleObject :: "Env \<Rightarrow> jsvalue \<Rightarrow> exn + ParsedTableData" where
  "singleObject env data =
     (case data of
        JObj kvs \<Rightarrow>
          Inr \<lparr>headers = map fst kvs,
               rows = [map (\<lambda>kv. toCellValue (stringify env) (Some (snd kv))) kvs],
               rowCount = 1, columnCount = length (map fst kvs),
               sourceType = Some Json, ocrText = None\<rparr>
      | _ \<Rightarrow> Inl (Error ''JSON format not supported. Expected array of objects or single object.''))"

text \<open>
  The second case: the first key whose value is a non-empty array that starts with an
  object; the key counts only when it is not the empty string. The value read again
  under the key found is that array.
\<close>

definition nestedOrSingle :: "Env \<Rightarrow> jsvalue \<Rightarrow> exn + ParsedTableData" where
  "nestedOrSingle env data =
     (case objectKeys data of
        Inl e \<Rightarrow> Inl e
      | Inr keys \<Rightarrow>
          (case List.find (\<lambda>key. case getProp data key of
                                   Inl e \<Rightarrow> False | Inr v \<Rightarrow> isArrayOfObjects v) keys of
             None \<Rightarrow> singleObject env data
           | Some topLevelArrayKey \<Rightarrow>
               if topLevelArrayKey = [] then singleObject env data
               else (case getProp data topLevelArrayKey of
                       Inr (Some (JArr (x # xs))) \<Rightarrow> tableOfObjects env x (x # xs)
                     | _ \<Rightarrow> singleObject env data)))"

definition parseJSONData :: "Env \<Rightarrow> jsvalue \<Rightarrow> exn + ParsedTableData" where
  "parseJSONData env data =
     (case data of
        JArr (x # xs) \<Rightarrow>
          if isObjectType x then tableOfObjects env x (x # xs) else nestedOrSingle env data
      | _ \<Rightarrow> nestedOrSingle env data)"

definition parseJSON :: "Env \<Rightarrow> File \<Rightarrow> exn + ParsedTableData" where
  "parseJSON env file =
     (case readAsText env file of
        Inl e \<Rightarrow> Inl e
      | Inr text \<Rightarrow>
          (case jsonParse env text of
             Inl e \<Rightarrow> Inl e
           | Inr data \<Rightarrow> parseJSONData env data))"

subsection \<open>EnhancedFileParser.parse\<close>

text \<open>
  The \<open>switch\<close> on the lower-cased extension. Beside the table or the exception, the
  result counts the calls of \<open>createOcrWorker\<close>; the extractors other than
  \<open>parseImage\<close> have no such call in their bodies.
\<close>

definition routeByExtension :: "Env \<Rightarrow> File \<Rightarrow> (exn + ParsedTableData) \<times> nat" where
  "routeByExtension env file =
     (let ext = getFileExtension (name file); e = toLowerCase ext
      in if e = ''csv'' then (parseCSV env file, 0)
         else if e = ''xlsx'' \<or> e = ''xls'' then (parseExcel env file, 0)
         else if e = ''pdf'' then (parsePDF env file, 0)
         else if e = ''json'' then (parseJSON env file, 0)
         else if e = ''txt'' then (parseText env file, 0)
         else if e = ''png'' \<or> e = ''jpg'' \<or> e = ''jpeg'' \<or> e = ''webp'' \<or> e = ''gif''
              then parseImage env file
         else (Inl (Error (''Unsupported file type: '' @ ext)), 0))"

definition extractMetadata :: "File \<Rightarrow> FileMetadata" where
  "extractMetadata file =
     \<lparr>mname = name file, msize = fsize file, mtype = ftype file,
      mlastModified = lastModified file\<rparr>"

text \<open>
  \<open>parse\<close>: the whole body is inside \<open>try\<close>, and the \<open>catch\<close> turns what was thrown
  into a \<open>PARSE_ERROR\<close>. The second component is the number of OCR workers asked for.
\<close>

definition parse :: "ParserConfig \<Rightarrow> Env \<Rightarrow> File \<Rightarrow> ParseResult \<times> nat" where
  "parse cfg env file =
     (let validationResult = EnhancedFileParser_validate cfg file
      in if \<not> isValid validationResult then
           (Failure \<lparr>code = ''VALIDATION_ERROR'',
                     message = join ''; '' (errors validationResult),
                     details = ValidationDetails (errors validationResult)\<rparr>, 0)
         else case routeByExtension env file of
           (Inr parsedData, ocr) \<Rightarrow>
             (Success \<lparr>raw = parsedData, metadata = extractMetadata file\<rparr>, ocr)
         | (Inl err, ocr) \<Rightarrow>
             (Failure \<lparr>code = ''PARSE_ERROR'',
                       message = (case err of Error msg \<Rightarrow> msg
                                  | NonError \<Rightarrow> ''Unknown parsing error''),
                       details = ThrownDetails err\<rparr>, ocr))"

section \<open>Example inputs\<close>

text \<open>
  The format list of the demo application and the one of the \<open>FileParser\<close> tests with
  a custom validator, some files, and environments in which the libraries answer in a
  fixed way.
\<close>

definition endsWith :: "string \<Rightarrow> string \<Rightarrow> bool" where
  "endsWith s t = suffix t s"

definition hasExtension :: "File \<Rightarrow> string list \<Rightarrow> bool" where
  "hasExtension file exts = list_ex (\<lambda>e. endsWith (toLowerCase (name file)) e) exts"

definition demoFormats :: "FileFormat list" where
  "demoFormats =
     [\<lparr>extension = ''txt'', mimeType = ''text/plain'',
       validator = (\<lambda>file. hasExtension file [''.txt''])\<rparr>,
      \<lparr>extension = ''csv'', mimeType = ''text/csv'',
       validator = (\<lambda>file. hasExtension file [''.csv''])\<rparr>,
      \<lparr>extension = ''xlsx'',
       mimeType = ''application/vnd.openxmlformats-officedocument.spreadsheetml.sheet'',
       validator = (\<lambda>file. hasExtension file [''.xlsx''])\<rparr>,
      \<lparr>extension = ''xls'', mimeType = ''application/vnd.ms-excel'',
       validator = (\<lambda>file. hasExtension file [''.xls''])\<rparr>,
      \<lparr>extension = ''json'', mimeType = ''application/json'',
       validator = (\<lambda>file. hasExtension file [''.json''])\<rparr>,
      \<lparr>extension = ''pdf'', mimeType = ''application/pdf'',
       validator = (\<lambda>file. hasExtension file [''.pdf''])\<rparr>,
      \<lparr>extension = ''png'', mimeType = ''image/png'',
       validator = (\<lambda>file. hasExtension file [''.png''])\<rparr>,
      \<lparr>extension = ''jpg'', mimeType = ''image/jpeg'',
       validator = (\<lambda>file. hasExtension file [''.jpg'', ''.jpeg''])\<rparr>,
      \<lparr>extension = ''jpeg'', mimeType = ''image/jpeg'',
       validator = (\<lambda>file. hasExtension file [''.jpeg'', ''.jpg''])\<rparr>,
      \<lparr>extension = ''webp'', mimeType = ''image/webp'',
       validator = (\<lambda>file. hasExtension file [''.webp''])\<rparr>,
      \<lparr>extension = ''gif'', mimeType = ''image/gif'',
       validator = (\<lambda>file. hasExtension file [''.gif''])\<rparr>]"

definition demoConfig :: ParserConfig where
  "demoConfig = newParser demoFormats (Some (10 * 1024 * 1024))"

definition customFormats :: "FileFormat list" where
  "customFormats =
     [\<lparr>extension = ''custom'', mimeType = ''application/custom'',
       validator = (\<lambda>file. endsWith (name file) ''.txt'')\<rparr>]"

definition customConfig :: ParserConfig where
  "customConfig = newParser customFormats None"

definition txtFile :: File where
  "txtFile = \<lparr>name = ''test.txt'', fsize = 7, ftype = ''text/plain'', lastModified = 0\<rparr>"

definition customFile :: File where
  "customFile = \<lparr>name = ''valid-test.custom'', fsize = 7, ftype = ''application/custom'',
                 lastModified = 0\<rparr>"

definition hugeExeFile :: File where
  "hugeExeFile = \<lparr>name = ''setup.exe'', fsize = 11 * 1024 * 1024,
                  ftype = ''application/octet-stream'', lastModified = 0\<rparr>"

definition pdfFile :: File where
  "pdfFile = \<lparr>name = ''sample.pdf'', fsize = 15, ftype = ''application/pdf'',
              lastModified = 0\<rparr>"

definition sheetFile :: File where
  "sheetFile = \<lparr>name = ''places.xlsx'', fsize = 100,
                ftype = ''application/vnd.openxmlformats-officedocument.spreadsheetml.sheet'',
                lastModified = 0\<rparr>"

definition csvFile :: File where
  "csvFile = \<lparr>name = ''input.csv'', fsize = 36, ftype = ''text/csv'', lastModified = 0\<rparr>"

text \<open>No browser, and every library call throws.\<close>

definition noLibraries :: Env where
  "noLibraries =
     \<lparr>hasDocument = False, hasWindow = False,
      stringify = (\<lambda>v. ''{}''),
      jsString = (\<lambda>v. case v of Some (JStr s) \<Rightarrow> s | _ \<Rightarrow> ''undefined''),
      papaParse = (\<lambda>file. PapaThrows NonError),
      sheetToJson = (\<lambda>file. Inl NonError),
      getDocument = (\<lambda>file. Inl NonError),
      readAsText = (\<lambda>file. Inl NonError),
      jsonParse = (\<lambda>text. Inl NonError),
      createWorker = Inl NonError\<rparr>"

text \<open>A sheet with two header cells and one data row that has a single cell.\<close>

definition raggedSheetEnv :: Env where
  "raggedSheetEnv =
     noLibraries\<lparr>sheetToJson :=
       (\<lambda>file. Inr [[Some (JStr ''Place''), Some (JStr ''City'')],
                     [Some (JStr ''Eiffel Tower'')]])\<rparr>"

text \<open>Papa Parse on the text \<open>Place Name,Location\nEiffel Tower,Paris\<close>.\<close>

definition csvEnv :: Env where
  "csvEnv =
     noLibraries\<lparr>papaParse :=
       (\<lambda>file. PapaComplete (Some [''Place Name'', ''Location''])
                  [[(''Place Name'', JStr ''Eiffel Tower''), (''Location'', JStr ''Paris'')]])\<rparr>"

text \<open>A browser in which PDF.js opens a one-page document whose only text item is a space.\<close>

definition blankPdfDocument :: PdfDocument where
  "blankPdfDocument =
     \<lparr>numPages = 1, getPage = (\<lambda>n. Inr \<lparr>getTextContent = Inr [Some '' '']\<rparr>),
      cleanup = None, destroy = None\<rparr>"

definition blankPdfEnv :: Env where
  "blankPdfEnv =
     noLibraries\<lparr>hasDocument := True, hasWindow := True,
                  getDocument := (\<lambda>file. Inr blankPdfDocument)\<rparr>"

text \<open>
  The same blank document, except that \<open>destroy()\<close> rejects with
  \<open>new Error('destroy failed')\<close>.
\<close>

definition failingDestroyDocument :: PdfDocument where
  "failingDestroyDocument = blankPdfDocument\<lparr>destroy := Some (Error ''destroy failed'')\<rparr>"

definition failingDestroyEnv :: Env where
  "failingDestroyEnv =
     noLibraries\<lparr>hasDocument := True, hasWindow := True,
                  getDocument := (\<lambda>file. Inr failingDestroyDocument)\<rparr>"

text \<open>A browser in which PDF.js rejects the bytes of the file.\<close>

definition brokenPdfEnv :: Env where
  "brokenPdfEnv =
     noLibraries\<lparr>hasDocument := True, hasWindow := True,
                  getDocument := (\<lambda>file. Inl (Error ''Invalid PDF structure.''))\<rparr>"

text \<open>Texts and a table for the metadata extractor.\<close>

definition labelledText :: string where
  "labelledText = ''Place Name: Taj Mahal'' @ [CHR 0x0A] @ ''Location: Agra, India''"

definition arrowText :: string where
  "arrowText = ''A -> B -!''"

definition arrowColonText :: string where
  "arrowColonText = ''A -> B : !''"

definition dashesText :: string where
  "dashesText = ''---''"

definition eiffelTable :: ParsedTableData where
  "eiffelTable =
     \<lparr>headers = [''Place Name'', ''City''], rows = [[CStr ''Eiffel Tower'', CStr ''Paris'']],
      rowCount = 1, columnCount = 2, sourceType = Some Csv, ocrText = None\<rparr>"

text \<open>
  A table whose first row has one non-blank cell and whose second and third rows have
  two.
\<close>

definition landmarksTable :: ParsedTableData where
  "landmarksTable =
     \<lparr>headers = [''Place Name'', ''City''],
      rows = [[CStr ''Louvre'', CNull], [CStr ''Eiffel Tower'', CStr ''Paris''],
              [CStr ''Big Ben'', CStr ''London'']],
      rowCount = 3, columnCount = 2, sourceType = Some Csv, ocrText = None\<rparr>"

definition overlappingHeaders :: "string list" where
  "overlappingHeaders = [''place_name_x'', ''place'']"

section \<open>Properties of the metadata extractor\<close>

subsection \<open>Cleaning a value\<close>

lemma singleSpaced_nonspace_Cons: "\<not> isSpace c \<Longrightarrow> singleSpaced (c # xs) = singleSpaced xs"
  by (cases xs) simp_all

lemma singleSpaced_tl: "singleSpaced (c # xs) \<Longrightarrow> singleSpaced xs"
  by (cases xs) simp_all

lemma collapseSpaces_hd: "collapseSpaces x = y # ys \<Longrightarrow> isSpace y \<Longrightarrow> x \<noteq> [] \<and> isSpace (hd x)"
  by (cases x) (auto split: if_splits simp: isSpace_def)

lemma singleSpaced_collapseSpaces: "singleSpaced (collapseSpaces s)"
proof (induction s rule: collapseSpaces.induct)
  case 1
  then show ?case by simp
next
  case (2 c cs)
  show ?case
  proof (cases "isSpace c")
    case True
    let ?r = "dropWhile isSpace cs"
    have ih: "singleSpaced (collapseSpaces ?r)" using 2(1) True by simp
    show ?thesis
    proof (cases "collapseSpaces ?r")
      case Nil
      then show ?thesis using True by simp
    next
      case (Cons y ys)
      have "\<not> isSpace y"
      proof
        assume "isSpace y"
        from collapseSpaces_hd[OF Cons this] have "?r \<noteq> []" "isSpace (hd ?r)" by auto
        then show False using hd_dropWhile[of isSpace cs] by simp
      qed
      then show ?thesis using True ih Cons by simp
    qed
  next
    case False
    then show ?thesis using 2(2) by (simp add: singleSpaced_nonspace_Cons)
  qed
qed

lemma collapseSpaces_fix: "singleSpaced t \<Longrightarrow> collapseSpaces t = t"
proof (induction t rule: collapseSpaces.induct)
  case 1
  then show ?case by simp
next
  case (2 c cs)
  show ?case
  proof (cases "isSpace c")
    case True
    have c: "c = CHR '' ''" using 2(3) True by (cases cs) auto
    have dw: "dropWhile isSpace cs = cs" using 2(3) True by (cases cs) auto
    have "singleSpaced cs" using 2(3) by (rule singleSpaced_tl)
    then show ?thesis using 2(1) True c dw by simp
  next
    case False
    have "singleSpaced cs" using 2(3) by (rule singleSpaced_tl)
    then show ?thesis using 2(2) False by simp
  qed
qed

lemma singleSpaced_append_right: "singleSpaced (a @ b) \<Longrightarrow> singleSpaced b"
  by (induction a) (auto dest: singleSpaced_tl)

lemma singleSpaced_append_left: "singleSpaced (a @ b) \<Longrightarrow> singleSpaced a"
proof (induction a rule: singleSpaced.induct)
  case 1
  then show ?case by simp
next
  case (2 c)
  then show ?case by (cases b) auto
next
  case (3 c d cs)
  then show ?case by auto
qed

lemma singleSpaced_dropWhile: "singleSpaced t \<Longrightarrow> singleSpaced (dropWhile P t)"
  using singleSpaced_append_right[of "takeWhile P t" "dropWhile P t"] by simp

lemma singleSpaced_dropWhileEnd: "singleSpaced t \<Longrightarrow> singleSpaced (rev (dropWhile P (rev t)))"
proof -
  assume a: "singleSpaced t"
  have "t = rev (dropWhile P (rev t)) @ rev (takeWhile P (rev t))"
    by (metis rev_append rev_rev_ident takeWhile_dropWhile_id)
  then show ?thesis using a singleSpaced_append_left by metis
qed

lemma isSpace_isEdgeChar: "isSpace c \<Longrightarrow> isEdgeChar c"
  by (simp add: isEdgeChar_def)

lemma stripEdges_ends:
  "stripEdges y = [] \<or> (\<not> isEdgeChar (hd (stripEdges y)) \<and> \<not> isEdgeChar (last (stripEdges y)))"
proof (cases "stripEdges y = []")
  case True
  then show ?thesis by simp
next
  case False
  let ?z = "dropWhile isEdgeChar y"
  let ?w = "dropWhile isEdgeChar (rev ?z)"
  have x: "stripEdges y = rev ?w" by (simp add: stripEdges_def)
  have wne: "?w \<noteq> []" using False x by simp
  have l: "\<not> isEdgeChar (last (stripEdges y))"
    using wne hd_dropWhile[of isEdgeChar "rev ?z"] by (simp add: x last_rev)
  have zne: "?z \<noteq> []"
  proof
    assume "?z = []"
    then have "?w = []" by (metis dropWhile.simps(1) rev.simps(1))
    with wne show False by contradiction
  qed
  have "?z = rev ?w @ rev (takeWhile isEdgeChar (rev ?z))"
    by (metis rev_append rev_rev_ident takeWhile_dropWhile_id)
  then have "hd ?z = hd (rev ?w)" using wne by (metis hd_append2 rev_is_Nil_conv)
  then have h: "\<not> isEdgeChar (hd (stripEdges y))"
    using zne hd_dropWhile[of isEdgeChar y] by (simp add: x)
  show ?thesis using l h by simp
qed

lemma dropWhile_ends_id:
  assumes "x = [] \<or> (\<not> P (hd x) \<and> \<not> P (last x))"
  shows "rev (dropWhile P (rev (dropWhile P x))) = x"
proof (cases x)
  case Nil
  then show ?thesis by simp
next
  case (Cons a as)
  then have ne: "x \<noteq> []" by simp
  have 1: "dropWhile P x = x" using Cons assms by simp
  have "\<not> P (hd (rev x))" using ne assms by (simp only: hd_rev) simp
  moreover have "rev x \<noteq> []" using ne by simp
  ultimately have 2: "dropWhile P (rev x) = rev x" by (cases "rev x") auto
  show ?thesis by (simp add: 1 2)
qed

lemma trim_stripEdges: "trim (stripEdges y) = stripEdges y"
  unfolding trim_def using stripEdges_ends[of y] isSpace_isEdgeChar
  by (intro dropWhile_ends_id) auto

lemma tidyValue_Nil: "tidyValue []"
  by (simp add: tidyValue_def)

lemma tidyValue_cleanValue: "tidyValue (cleanValue s)"
  unfolding tidyValue_def cleanValue_def trim_stripEdges
  using stripEdges_ends[of "collapseSpaces s"]
  by (simp add: stripEdges_def singleSpaced_dropWhileEnd singleSpaced_dropWhile singleSpaced_collapseSpaces)

lemma cleanValue_fix: "tidyValue v \<Longrightarrow> cleanValue v = v"
proof -
  assume t: "tidyValue v"
  then have 1: "collapseSpaces v = v" by (simp add: tidyValue_def collapseSpaces_fix)
  have 2: "stripEdges v = v" unfolding stripEdges_def
    using t by (intro dropWhile_ends_id) (auto simp: tidyValue_def)
  show ?thesis unfolding cleanValue_def 1 2 using trim_stripEdges[of v] by (simp add: 2)
qed

lemma cleanValue_again: "cleanValue (cleanValue s) = cleanValue s"
  by (rule cleanValue_fix) (rule tidyValue_cleanValue)

subsection \<open>Where the extracted values come from\<close>

lemma tidyValue_readValueFromRow: "tidyValue (readValueFromRow numStr row i)"
  by (simp add: readValueFromRow_def tidyValue_Nil tidyValue_cleanValue)

lemma tidyValue_extractFromTableData:
  "tidyValue (placeName (extractFromTableData numStr search d)) \<and>
   tidyValue (location (extractFromTableData numStr search d))"
  by (simp add: extractFromTableData_def emptyResult_def Let_def tidyValue_Nil
      tidyValue_readValueFromRow split: option.splits)

lemma inlineResult_Some:
  assumes "inlineResult l = Some r"
  shows "tidyValue (placeName r) \<and> placeName r \<noteq> [] \<and> location r \<noteq> [] \<and>
         placeConfidence r = 0.88 \<and> locationConfidence r = 0.88"
  using assms
  by (auto simp: inlineResult_def Let_def tidyValue_cleanValue split: option.splits if_splits)

lemma prefixPlace_tidy:
  "tidyValue (placeName st) \<Longrightarrow> tidyValue (placeName (prefixPlace l st))"
  by (auto simp: prefixPlace_def tidyValue_cleanValue split: option.splits)

lemma prefixPlace_location: "location (prefixPlace l st) = location st"
  by (simp add: prefixPlace_def split: option.splits)

lemma prefixLocation_tidy:
  "tidyValue (location st) \<Longrightarrow> tidyValue (location (prefixLocation l st))"
  by (auto simp: prefixLocation_def tidyValue_cleanValue split: option.splits)

lemma prefixLocation_placeName: "placeName (prefixLocation l st) = placeName st"
  by (simp add: prefixLocation_def split: option.splits)

lemma scanLines_Inr_tidy:
  "scanLines ls st0 = Inr st \<Longrightarrow> tidyValue (placeName st0) \<Longrightarrow> tidyValue (location st0) \<Longrightarrow>
   tidyValue (placeName st) \<and> tidyValue (location st)"
proof (induction ls arbitrary: st0)
  case Nil
  then show ?case by simp
next
  case (Cons l ls)
  let ?st' = "prefixLocation l (prefixPlace l st0)"
  have t: "tidyValue (placeName ?st')" "tidyValue (location ?st')"
    using Cons.prems(2,3)
    by (simp_all add: prefixLocation_placeName prefixPlace_tidy prefixLocation_tidy prefixPlace_location)
  from Cons.prems(1) have none: "inlineResult l = None"
    by (cases "inlineResult l") simp_all
  show ?case
  proof (cases "placeName ?st' \<noteq> [] \<and> location ?st' \<noteq> []")
    case True
    then have "st = ?st'" using Cons.prems(1) none by (simp add: Let_def)
    then show ?thesis using t by simp
  next
    case False
    then have "scanLines ls ?st' = Inr st" using Cons.prems(1) none
      by (auto simp: Let_def split: if_splits)
    then show ?thesis using Cons.IH t by blast
  qed
qed

lemma scanLines_Inl:
  "scanLines ls st0 = Inl r \<Longrightarrow> tidyValue (placeName r) \<and> locationConfidence r = 0.88"
proof (induction ls arbitrary: st0)
  case Nil
  then show ?case by simp
next
  case (Cons l ls)
  show ?case
  proof (cases "inlineResult l")
    case None
    then show ?thesis using Cons by (simp add: Let_def split: if_splits)
  next
    case (Some r')
    then have "r = r'" using Cons.prems by simp
    then show ?thesis using inlineResult_Some[OF Some] by simp
  qed
qed

lemma likelyPlaceFallback_tidy:
  "tidyValue (placeName st) \<Longrightarrow> tidyValue (placeName (likelyPlaceFallback ls st))"
  by (auto simp: likelyPlaceFallback_def tidyValue_cleanValue split: option.splits)

lemma likelyPlaceFallback_location: "location (likelyPlaceFallback ls st) = location st"
  by (simp add: likelyPlaceFallback_def split: option.splits)

lemma likelyLocationFallback_tidy:
  "tidyValue (location st) \<Longrightarrow> tidyValue (location (likelyLocationFallback ls st))"
  by (auto simp: likelyLocationFallback_def tidyValue_cleanValue split: option.splits)

lemma likelyLocationFallback_placeName: "placeName (likelyLocationFallback ls st) = placeName st"
  by (simp add: likelyLocationFallback_def split: option.splits)

lemma extractFromText_tidy:
  "tidyValue (placeName (extractFromText t)) \<and>
   (locationConfidence (extractFromText t) \<noteq> 0.88 \<longrightarrow> tidyValue (location (extractFromText t)))"
proof (cases "scanLines (nonBlankLines t) emptyResult")
  case (Inl r)
  then show ?thesis using scanLines_Inl[OF Inl] by (simp add: extractFromText_def)
next
  case (Inr st)
  have "tidyValue (placeName st) \<and> tidyValue (location st)"
    using scanLines_Inr_tidy[OF Inr] by (simp add: emptyResult_def tidyValue_Nil)
  then show ?thesis using Inr
    by (simp add: extractFromText_def Let_def likelyLocationFallback_placeName likelyPlaceFallback_tidy
        likelyLocationFallback_tidy likelyPlaceFallback_location)
qed

lemma extractMetadataFromContent_placeName_tidy:
  "tidyValue (placeName (extractMetadataFromContent numStr search c))"
proof (cases c)
  case (Table d)
  then show ?thesis
    using tidyValue_extractFromTableData[of numStr search d] extractFromText_tidy
    by (simp add: extractMetadataFromContent_def Let_def split: option.splits)
next
  case (Text s)
  then show ?thesis using extractFromText_tidy by (simp add: extractMetadataFromContent_def)
next
  case (Records rs)
  then show ?thesis using tidyValue_extractFromTableData
    by (simp add: extractMetadataFromContent_def extractFromObject_def Let_def split: list.splits)
next
  case (Object r)
  then show ?thesis using tidyValue_extractFromTableData
    by (simp add: extractMetadataFromContent_def extractFromObject_def Let_def)
next
  case Other
  then show ?thesis
    by (simp add: extractMetadataFromContent_def emptyResult_def tidyValue_Nil)
qed

lemma inline_example: "extractFromText arrowText =
  \<lparr>placeName = ''A'', location = ''B -'', placeConfidence = 0.88, locationConfidence = 0.88\<rparr>"
  unfolding arrowText_def by code_simp

lemma prefix_example: "extractFromText labelledText =
  \<lparr>placeName = ''Taj Mahal'', location = ''Agra, India'', placeConfidence = 0.9,
   locationConfidence = 0.9\<rparr>"
  unfolding labelledText_def by code_simp

lemma tidyValue_tidyExceptEnd: "tidyValue v \<Longrightarrow> tidyExceptEnd v"
  using isSpace_isEdgeChar by (auto simp: tidyValue_def tidyExceptEnd_def)

lemma stripTrailingSymbols_prefix: "\<exists>b. w = stripTrailingSymbols w @ b"
proof (cases "w \<noteq> [] \<and> isTrailingSymbol (last w)")
  case False
  then have "stripTrailingSymbols w = w" by (auto simp: stripTrailingSymbols_def)
  then show ?thesis by simp
next
  case True
  let ?q = "dropWhile isTrailingSymbol (rev w)"
  have a: "rev ?q = rev (dropWhile isSpace ?q) @ rev (takeWhile isSpace ?q)"
    by (metis rev_append takeWhile_dropWhile_id)
  have b: "w = rev ?q @ rev (takeWhile isTrailingSymbol (rev w))"
    by (metis rev_append rev_rev_ident takeWhile_dropWhile_id)
  have c: "w = rev (dropWhile isSpace ?q) @
      (rev (takeWhile isSpace ?q) @ rev (takeWhile isTrailingSymbol (rev w)))"
    using b unfolding a by (simp only: append_assoc)
  have "stripTrailingSymbols w = rev (dropWhile isSpace ?q)"
    using True by (simp add: stripTrailingSymbols_def)
  then show ?thesis using c by metis
qed

lemma prefix_trim_tidy:
  assumes "tidyValue (x @ b)"
  shows "tidyExceptEnd (trim x)"
proof (cases "x = []")
  case True
  then show ?thesis by (simp add: trim_def tidyExceptEnd_def)
next
  case False
  have ss: "singleSpaced x" using assms singleSpaced_append_left by (auto simp: tidyValue_def)
  have "hd (x @ b) = hd x" using False by simp
  then have h: "\<not> isEdgeChar (hd x)" using assms False by (auto simp: tidyValue_def)
  then have hs: "\<not> isSpace (hd x)" using isSpace_isEdgeChar by blast
  have d: "dropWhile isSpace x = x" using False hs by (cases x) auto
  let ?w = "dropWhile isSpace (rev x)"
  have t: "trim x = rev ?w" by (simp add: trim_def d)
  have s2: "singleSpaced (trim x)" unfolding t using ss by (rule singleSpaced_dropWhileEnd)
  show ?thesis
  proof (cases "?w = []")
    case True
    show ?thesis unfolding t True by (simp add: tidyExceptEnd_def)
  next
    case wne: False
    have l: "\<not> isSpace (last (trim x))"
      using wne hd_dropWhile[of isSpace "rev x"] by (simp add: t last_rev)
    have "x = rev ?w @ rev (takeWhile isSpace (rev x))"
      by (metis rev_append rev_rev_ident takeWhile_dropWhile_id)
    then have "hd x = hd (rev ?w)" using wne by (metis hd_append2 rev_is_Nil_conv)
    then have "\<not> isEdgeChar (hd (trim x))" using h by (simp add: t)
    then show ?thesis using s2 l by (simp add: tidyExceptEnd_def)
  qed
qed

lemma inline_location_tidyExceptEnd:
  "tidyExceptEnd (trim (stripTrailingSymbols (cleanValue s)))"
proof -
  obtain b where "cleanValue s = stripTrailingSymbols (cleanValue s) @ b"
    using stripTrailingSymbols_prefix by blast
  then have "tidyValue (stripTrailingSymbols (cleanValue s) @ b)"
    using tidyValue_cleanValue[of s] by simp
  then show ?thesis by (rule prefix_trim_tidy)
qed

lemma inlineResult_location:
  assumes "inlineResult l = Some r"
  shows "tidyExceptEnd (location r)"
  using assms inline_location_tidyExceptEnd
  by (auto simp: inlineResult_def Let_def split: option.splits if_splits)

lemma scanLines_Inl_location:
  "scanLines ls st0 = Inl r \<Longrightarrow> tidyExceptEnd (location r)"
proof (induction ls arbitrary: st0)
  case Nil
  then show ?case by simp
next
  case (Cons l ls)
  show ?case
  proof (cases "inlineResult l")
    case None
    then show ?thesis using Cons by (simp add: Let_def split: if_splits)
  next
    case (Some r')
    then have "r = r'" using Cons.prems by simp
    then show ?thesis using inlineResult_location[OF Some] by simp
  qed
qed

lemma extractFromText_not_inline:
  "scanLines (nonBlankLines t) emptyResult = Inr st \<Longrightarrow> tidyValue (location (extractFromText t))"
proof -
  assume a: "scanLines (nonBlankLines t) emptyResult = Inr st"
  have "tidyValue (placeName st) \<and> tidyValue (location st)"
    using scanLines_Inr_tidy[OF a] by (simp add: emptyResult_def tidyValue_Nil)
  then show ?thesis using a
    by (simp add: extractFromText_def Let_def likelyLocationFallback_tidy likelyPlaceFallback_location)
qed

lemma extractFromText_location:
  "tidyExceptEnd (location (extractFromText t))"
proof (cases "scanLines (nonBlankLines t) emptyResult")
  case (Inl r)
  then show ?thesis using scanLines_Inl_location[OF Inl] by (simp add: extractFromText_def)
next
  case (Inr st)
  then show ?thesis using extractFromText_not_inline tidyValue_tidyExceptEnd by blast
qed

lemma extractFromObject_table:
  "\<exists>d. extractFromObject numStr search r = extractFromTableData numStr search d"
  unfolding extractFromObject_def Let_def by (rule exI) (rule refl)

lemma extractMetadataFromContent_location:
  "tidyExceptEnd (location (extractMetadataFromContent numStr search c)) \<and>
   (locationConfidence (extractMetadataFromContent numStr search c) \<noteq> 0.88 \<longrightarrow>
      tidyValue (location (extractMetadataFromContent numStr search c)))"
proof -
  have tab: "\<And>d. tidyValue (location (extractFromTableData numStr search d))"
    using tidyValue_extractFromTableData by blast
  have tx: "\<And>t. tidyExceptEnd (location (extractFromText t)) \<and>
     (locationConfidence (extractFromText t) \<noteq> 0.88 \<longrightarrow> tidyValue (location (extractFromText t)))"
    using extractFromText_location extractFromText_tidy by blast
  show ?thesis
  proof (cases c)
    case (Table d)
    show ?thesis
    proof (cases "placeName (extractFromTableData numStr search d) \<noteq> [] \<or>
                  location (extractFromTableData numStr search d) \<noteq> []")
      case True
      then have "extractMetadataFromContent numStr search c = extractFromTableData numStr search d"
        using Table by (simp add: extractMetadataFromContent_def Let_def)
      then show ?thesis using tab[of d] tidyValue_tidyExceptEnd by simp
    next
      case False
      then have "\<exists>t. extractMetadataFromContent numStr search c = extractFromText t"
        using Table
        by (cases "ocrText d") (auto simp: extractMetadataFromContent_def Let_def)
      then obtain t where "extractMetadataFromContent numStr search c = extractFromText t"
        by blast
      then show ?thesis using tx[of t] by simp
    qed
  next
    case (Text s)
    then show ?thesis using tx[of s] by (simp add: extractMetadataFromContent_def)
  next
    case (Records rs)
    then have "\<exists>d. extractMetadataFromContent numStr search c = extractFromTableData numStr search d"
      using extractFromObject_table by (cases rs) (simp_all add: extractMetadataFromContent_def)
    then obtain d where "extractMetadataFromContent numStr search c = extractFromTableData numStr search d"
      by blast
    then show ?thesis using tab[of d] tidyValue_tidyExceptEnd by simp
  next
    case (Object r)
    then have "\<exists>d. extractMetadataFromContent numStr search c = extractFromTableData numStr search d"
      using extractFromObject_table by (simp add: extractMetadataFromContent_def)
    then obtain d where "extractMetadataFromContent numStr search c = extractFromTableData numStr search d"
      by blast
    then show ?thesis using tab[of d] tidyValue_tidyExceptEnd by simp
  next
    case Other
    then show ?thesis
      by (simp add: extractMetadataFromContent_def emptyResult_def tidyValue_Nil
          tidyValue_tidyExceptEnd)
  qed
qed

lemma inline_colon_example: "extractFromText arrowColonText =
  \<lparr>placeName = ''A'', location = ''B :'', placeConfidence = 0.88, locationConfidence = 0.88\<rparr>"
  unfolding arrowColonText_def by code_simp

text \<open>
  C10, as stated, fails: the line \<open>A -> B -!\<close> passes the inline arrow test, the location
  \<open>B -!\<close> is cleaned and then loses its final symbol, and the extracted location
  \<open>B -\<close> ends with a dash. In the same way the line \<open>A -> B : !\<close> gives the location
  \<open>B :\<close>, which ends with a colon.
\<close>

theorem extracted_location_trailing_dash:
  "arrowText = ''A -> B -!'' \<and> location (extractFromText arrowText) = ''B -'' \<and>
   last (location (extractFromText arrowText)) = CHR ''-'' \<and>
   arrowColonText = ''A -> B : !'' \<and> location (extractFromText arrowColonText) = ''B :''"
  by (simp add: inline_example inline_colon_example) (simp add: arrowText_def arrowColonText_def)

text \<open>
  C10, amended: \<open>cleanValue\<close> is idempotent, and every value it returns has single
  spaces only and neither starts nor ends with a colon, a dash or white space. That
  covers every place name and location of the table-header strategy, every place name
  of the text-pattern strategy, and every location of the text-pattern strategy that
  does not come from an inline arrow line: when the scan of the lines ends without an
  inline arrow line the location has this form, and otherwise the location is the one
  of that line, reported with the confidence 0.88. A location from an inline arrow
  line still has single spaces only, does not start with a colon, a dash or white
  space, and does not end with white space; it may end with a colon or a dash. So
  every place name \<open>extractMetadataFromContent\<close> returns has the full form, every
  location it returns has the form up to a final colon or dash, and a location it
  reports with a confidence other than 0.88 has the full form.
\<close>

theorem cleanValue_idempotent_values_tidy:
  "cleanValue (cleanValue s) = cleanValue s \<and> tidyValue (cleanValue s) \<and>
   tidyValue (placeName (extractFromTableData numStr search d)) \<and>
   tidyValue (location (extractFromTableData numStr search d)) \<and>
   tidyValue (placeName (extractFromText t)) \<and>
   (locationConfidence (extractFromText t) \<noteq> 0.88 \<longrightarrow> tidyValue (location (extractFromText t))) \<and>
   tidyValue (placeName (extractMetadataFromContent numStr search c)) \<and>
   (case scanLines (nonBlankLines t) emptyResult of
      Inl r \<Rightarrow> location (extractFromText t) = location r \<and> locationConfidence r = 0.88
    | Inr st \<Rightarrow> tidyValue (location (extractFromText t))) \<and>
   tidyExceptEnd (location (extractFromText t)) \<and>
   tidyExceptEnd (location (extractMetadataFromContent numStr search c)) \<and>
   (locationConfidence (extractMetadataFromContent numStr search c) \<noteq> 0.88 \<longrightarrow>
      tidyValue (location (extractMetadataFromContent numStr search c)))"
proof -
  have k: "case scanLines (nonBlankLines t) emptyResult of
      Inl r \<Rightarrow> location (extractFromText t) = location r \<and> locationConfidence r = 0.88
    | Inr st \<Rightarrow> tidyValue (location (extractFromText t))"
  proof (cases "scanLines (nonBlankLines t) emptyResult")
    case (Inl r)
    then show ?thesis using scanLines_Inl[OF Inl] by (simp add: extractFromText_def)
  next
    case (Inr st)
    then show ?thesis using extractFromText_not_inline[OF Inr] by simp
  qed
  show ?thesis
    using cleanValue_again tidyValue_cleanValue tidyValue_extractFromTableData extractFromText_tidy
      extractMetadataFromContent_placeName_tidy k extractFromText_location
      extractMetadataFromContent_location
    by blast
qed

theorem cleanValue_idempotent_values_tidy_witness:
  "cleanValue (cleanValue '' :- Taj   Mahal --: '') = cleanValue '' :- Taj   Mahal --: '' \<and>
   locationConfidence (extractFromText labelledText) \<noteq> 0.88 \<and>
   tidyValue (location (extractFromText labelledText)) \<and>
   locationConfidence (extractMetadataFromContent (\<lambda>n. []) (\<lambda>q. []) (Text labelledText)) \<noteq> 0.88 \<and>
   tidyValue (location (extractMetadataFromContent (\<lambda>n. []) (\<lambda>q. []) (Text labelledText)))"
proof -
  have e: "extractMetadataFromContent (\<lambda>n. []) (\<lambda>q. []) (Text labelledText) = extractFromText labelledText"
    by (simp add: extractMetadataFromContent_def)
  show ?thesis
    using cleanValue_idempotent_values_tidy[of "'' :- Taj   Mahal --: ''" "\<lambda>n. []" "\<lambda>q. []"
      eiffelTable labelledText "Text labelledText"]
    by (simp add: e prefix_example)
qed


subsection \<open>The best data row\<close>

lemma hd_insort_key:
  "hd (insort_key f x ys) = (if ys = [] \<or> f x \<le> f (hd ys) then x else hd ys)"
  by (cases ys) auto

lemma sort_key_Cons: "sort_key f (x # xs) = insort_key f x (sort_key f xs)"
  by (simp add: sort_key_def)

lemma sort_key_eq_Nil: "sort_key f xs = [] \<longleftrightarrow> xs = []"
  by (metis length_sort list.size(3) length_0_conv)

lemma hd_sort_key_first_least:
  "xs \<noteq> [] \<Longrightarrow>
   \<exists>i<length xs. hd (sort_key f xs) = xs ! i \<and> (\<forall>j<length xs. f (xs ! i) \<le> f (xs ! j)) \<and>
                  (\<forall>j<i. f (xs ! i) < f (xs ! j))"
proof (induction xs)
  case Nil
  then show ?case by simp
next
  case (Cons x xs)
  show ?case
  proof (cases "xs = []")
    case True
    then show ?thesis by (simp add: sort_key_def)
  next
    case False
    from Cons.IH[OF False] obtain i where i: "i < length xs" "hd (sort_key f xs) = xs ! i"
      "\<forall>j<length xs. f (xs ! i) \<le> f (xs ! j)" "\<forall>j<i. f (xs ! i) < f (xs ! j)" by blast
    have ne: "sort_key f xs \<noteq> []" using False by (simp add: sort_key_eq_Nil)
    show ?thesis
    proof (cases "f x \<le> f (xs ! i)")
      case True
      have h: "hd (sort_key f (x # xs)) = x"
        using True i(2) by (simp add: sort_key_Cons hd_insort_key)
      have "\<forall>j<length (x # xs). f ((x # xs) ! 0) \<le> f ((x # xs) ! j)"
      proof (intro allI impI)
        fix j assume "j < length (x # xs)"
        then show "f ((x # xs) ! 0) \<le> f ((x # xs) ! j)"
          using True i(3) by (cases j) (auto intro: order_trans)
      qed
      then show ?thesis using h by (intro exI[of _ 0]) simp
    next
      case False
      then have lt: "f (xs ! i) < f x" by simp
      have h: "hd (sort_key f (x # xs)) = (x # xs) ! Suc i"
        using False i(2) ne by (simp add: sort_key_Cons hd_insort_key)
      have a: "\<forall>j<length (x # xs). f ((x # xs) ! Suc i) \<le> f ((x # xs) ! j)"
      proof (intro allI impI)
        fix j assume "j < length (x # xs)"
        then show "f ((x # xs) ! Suc i) \<le> f ((x # xs) ! j)"
          using lt i(3) by (cases j) auto
      qed
      have b: "\<forall>j<Suc i. f ((x # xs) ! Suc i) < f ((x # xs) ! j)"
      proof (intro allI impI)
        fix j assume "j < Suc i"
        then show "f ((x # xs) ! Suc i) < f ((x # xs) ! j)"
          using lt i(4) by (cases j) auto
      qed
      show ?thesis using h a b i(1) by (intro exI[of _ "Suc i"]) simp
    qed
  qed
qed

lemma getBestDataRow_first_max:
  assumes "length rs > 1"
  shows "\<exists>i<length rs. getBestDataRow numStr rs = Some (rs ! i) \<and>
           (\<forall>j<length rs. nonEmptyValueCount numStr (rs ! j) \<le> nonEmptyValueCount numStr (rs ! i)) \<and>
           (\<forall>j<i. nonEmptyValueCount numStr (rs ! j) < nonEmptyValueCount numStr (rs ! i))"
proof -
  let ?f = "\<lambda>r. - int (nonEmptyValueCount numStr r)"
  have ne: "rs \<noteq> []" using assms by auto
  from hd_sort_key_first_least[OF ne, of ?f] obtain i where i: "i < length rs"
    "hd (sort_key ?f rs) = rs ! i" "\<forall>j<length rs. ?f (rs ! i) \<le> ?f (rs ! j)"
    "\<forall>j<i. ?f (rs ! i) < ?f (rs ! j)" by blast
  have sne: "sort_key ?f rs \<noteq> []" using ne by (simp add: sort_key_eq_Nil)
  have "getBestDataRow numStr rs = Some (hd (sort_key ?f rs))"
  proof (cases rs)
    case Nil
    then show ?thesis using ne by simp
  next
    case (Cons a as)
    then have "as \<noteq> []" using assms by auto
    then obtain b bs where "as = b # bs" by (cases as) auto
    then show ?thesis using Cons sne
      by (cases "sort_key ?f rs") (auto simp: getBestDataRow_def)
  qed
  then show ?thesis using i by (intro exI[of _ i]) auto
qed

text \<open>
  C8: when a table has more than one data row, there is a row that has the greatest
  count of non-blank cells (every row has at most as many) and is the first such row
  (every earlier row has fewer), that \<open>getBestDataRow\<close> returns, and from which the
  table-header strategy reads both cell values: the place name and the location it
  returns are the cleaned cells of that row at the indices of the matched headers
  (the empty string when there is no match or the row is too short), each with the
  confidence of its header match when it is not empty. A table without headers has
  no cell to read and gives the empty result. When the place name or the location is
  not empty, this is the result of \<open>extractMetadataFromContent\<close> for the table.
\<close>

theorem extractor_reads_first_fullest_row:
  assumes "length (rows d) > 1"
  shows "\<exists>i<length (rows d).
     (\<forall>j<length (rows d).
         nonEmptyValueCount numStr (rows d ! j) \<le> nonEmptyValueCount numStr (rows d ! i)) \<and>
     (\<forall>j<i. nonEmptyValueCount numStr (rows d ! j) < nonEmptyValueCount numStr (rows d ! i)) \<and>
     getBestDataRow numStr (rows d) = Some (rows d ! i) \<and>
     extractFromTableData numStr search d =
       (if headers d = [] then emptyResult else
        let placeMatch = findHeaderMatch search (headers d) PLACE_ALIASES TargetPlaceName;
            locationMatch = findHeaderMatch search (headers d) LOCATION_ALIASES TargetLocation;
            pn = (if index placeMatch < 0 \<or> index placeMatch \<ge> int (length (rows d ! i)) then []
                  else cleanValue (cellString numStr (rows d ! i ! nat (index placeMatch))));
            loc = (if index locationMatch < 0 \<or> index locationMatch \<ge> int (length (rows d ! i))
                   then []
                   else cleanValue (cellString numStr (rows d ! i ! nat (index locationMatch))))
        in \<lparr>placeName = pn, location = loc,
            placeConfidence = (if pn \<noteq> [] then hconfidence placeMatch else 0),
            locationConfidence = (if loc \<noteq> [] then hconfidence locationMatch else 0)\<rparr>) \<and>
     (placeName (extractFromTableData numStr search d) \<noteq> [] \<or>
      location (extractFromTableData numStr search d) \<noteq> [] \<longrightarrow>
        extractMetadataFromContent numStr search (Table d) = extractFromTableData numStr search d)"
proof -
  from getBestDataRow_first_max[OF assms, of numStr] obtain i where
    i: "i < length (rows d)" "getBestDataRow numStr (rows d) = Some (rows d ! i)"
    "\<forall>j<length (rows d).
         nonEmptyValueCount numStr (rows d ! j) \<le> nonEmptyValueCount numStr (rows d ! i)"
    "\<forall>j<i. nonEmptyValueCount numStr (rows d ! j) < nonEmptyValueCount numStr (rows d ! i)"
    by blast
  have ne: "rows d \<noteq> []" using assms by auto
  have e: "extractFromTableData numStr search d =
       (if headers d = [] then emptyResult else
        let placeMatch = findHeaderMatch search (headers d) PLACE_ALIASES TargetPlaceName;
            locationMatch = findHeaderMatch search (headers d) LOCATION_ALIASES TargetLocation;
            pn = (if index placeMatch < 0 \<or> index placeMatch \<ge> int (length (rows d ! i)) then []
                  else cleanValue (cellString numStr (rows d ! i ! nat (index placeMatch))));
            loc = (if index locationMatch < 0 \<or> index locationMatch \<ge> int (length (rows d ! i))
                   then []
                   else cleanValue (cellString numStr (rows d ! i ! nat (index locationMatch))))
        in \<lparr>placeName = pn, location = loc,
            placeConfidence = (if pn \<noteq> [] then hconfidence placeMatch else 0),
            locationConfidence = (if loc \<noteq> [] then hconfidence locationMatch else 0)\<rparr>)"
    using ne by (simp add: extractFromTableData_def i(2) readValueFromRow_def Let_def)
  have m: "placeName (extractFromTableData numStr search d) \<noteq> [] \<or>
      location (extractFromTableData numStr search d) \<noteq> [] \<longrightarrow>
        extractMetadataFromContent numStr search (Table d) = extractFromTableData numStr search d"
    by (simp add: extractMetadataFromContent_def Let_def)
  show ?thesis using i(1) i(3) i(4) i(2) e m by (intro exI[of _ i] conjI)
qed

lemma landmarks_result:
  "extractFromTableData (\<lambda>n. []) (\<lambda>q. []) landmarksTable =
     \<lparr>placeName = ''Eiffel Tower'', location = ''Paris'', placeConfidence = 0.96,
      locationConfidence = 0.96\<rparr>"
  unfolding landmarksTable_def by code_simp

theorem extractor_reads_first_fullest_row_witness:
  "headers landmarksTable \<noteq> [] \<and> length (rows landmarksTable) > 1 \<and>
   (\<exists>i<length (rows landmarksTable).
      getBestDataRow (\<lambda>n. []) (rows landmarksTable) = Some (rows landmarksTable ! i) \<and>
      rows landmarksTable ! i = [CStr ''Eiffel Tower'', CStr ''Paris'']) \<and>
   extractFromTableData (\<lambda>n. []) (\<lambda>q. []) landmarksTable =
     \<lparr>placeName = ''Eiffel Tower'', location = ''Paris'', placeConfidence = 0.96,
      locationConfidence = 0.96\<rparr> \<and>
   extractMetadataFromContent (\<lambda>n. []) (\<lambda>q. []) (Table landmarksTable) =
     \<lparr>placeName = ''Eiffel Tower'', location = ''Paris'', placeConfidence = 0.96,
      locationConfidence = 0.96\<rparr>"
proof -
  have a: "headers landmarksTable \<noteq> []" by (simp add: landmarksTable_def)
  have b: "length (rows landmarksTable) > 1" by (simp add: landmarksTable_def)
  have best: "getBestDataRow (\<lambda>n. []) (rows landmarksTable) = Some [CStr ''Eiffel Tower'', CStr ''Paris'']"
    unfolding landmarksTable_def by code_simp
  from extractor_reads_first_fullest_row[OF b, of "\<lambda>n. []" "\<lambda>q. []"] obtain i where
    i: "i < length (rows landmarksTable)"
    "getBestDataRow (\<lambda>n. []) (rows landmarksTable) = Some (rows landmarksTable ! i)"
    "placeName (extractFromTableData (\<lambda>n. []) (\<lambda>q. []) landmarksTable) \<noteq> [] \<or>
      location (extractFromTableData (\<lambda>n. []) (\<lambda>q. []) landmarksTable) \<noteq> [] \<longrightarrow>
        extractMetadataFromContent (\<lambda>n. []) (\<lambda>q. []) (Table landmarksTable)
          = extractFromTableData (\<lambda>n. []) (\<lambda>q. []) landmarksTable"
    by blast
  have r: "rows landmarksTable ! i = [CStr ''Eiffel Tower'', CStr ''Paris'']"
    using i(2) best by simp
  have m: "extractMetadataFromContent (\<lambda>n. []) (\<lambda>q. []) (Table landmarksTable)
          = extractFromTableData (\<lambda>n. []) (\<lambda>q. []) landmarksTable"
    using i(3) by (simp add: landmarks_result)
  have ex: "\<exists>i<length (rows landmarksTable).
      getBestDataRow (\<lambda>n. []) (rows landmarksTable) = Some (rows landmarksTable ! i) \<and>
      rows landmarksTable ! i = [CStr ''Eiffel Tower'', CStr ''Paris'']"
    using i(1) i(2) r by blast
  show ?thesis using a b ex m landmarks_result by simp
qed


subsection \<open>The priority match\<close>

lemma includesStr_refl: "includesStr h h"
  by (simp add: includesStr_def)

lemma findIndex_None: "findIndex P xs = None \<longleftrightarrow> (\<forall>x\<in>set xs. \<not> P x)"
  by (auto simp: findIndex_def list_ex_iff)

lemma findIndex_Some:
  "\<exists>x\<in>set xs. P x \<Longrightarrow> findIndex P xs = Some (length (takeWhile (\<lambda>x. \<not> P x) xs))"
  by (auto simp: findIndex_def list_ex_iff)

lemma findPriorityMatchFrom_none:
  "\<forall>p\<in>set ps. \<forall>h\<in>set hs. \<not> includesStr h p \<Longrightarrow>
   findPriorityMatchFrom k hs ps = \<lparr>index = -1, hconfidence = 0\<rparr>"
proof (induction ps arbitrary: k)
  case Nil
  then show ?case by simp
next
  case (Cons p ps)
  have 1: "findIndex (\<lambda>h. includesStr h p) hs = None" using Cons.prems by (simp add: findIndex_None)
  have "\<forall>h\<in>set hs. h \<noteq> p" using Cons.prems includesStr_refl by auto
  then have 2: "findIndex (\<lambda>h. h = p) hs = None" by (simp add: findIndex_None)
  show ?case using 1 2 Cons by simp
qed

lemma findPriorityMatchFrom_first:
  assumes "i < length ps" and "\<exists>h\<in>set hs. includesStr h (ps ! i)"
    and "\<forall>j<i. \<forall>h\<in>set hs. \<not> includesStr h (ps ! j)"
  shows "findPriorityMatchFrom k hs ps =
     (if ps ! i \<in> set hs
      then \<lparr>index = int (length (takeWhile (\<lambda>h. h \<noteq> ps ! i) hs)),
            hconfidence = 0.96 - min (real (k + i) * 0.01) 0.1\<rparr>
      else \<lparr>index = int (length (takeWhile (\<lambda>h. \<not> includesStr h (ps ! i)) hs)),
            hconfidence = 0.88 - min (real (k + i) * 0.01) 0.1\<rparr>)"
  using assms
proof (induction ps arbitrary: i k)
  case Nil
  then show ?case by simp
next
  case (Cons p ps)
  show ?case
  proof (cases i)
    case 0
    show ?thesis
    proof (cases "p \<in> set hs")
      case True
      then have "findIndex (\<lambda>h. h = p) hs = Some (length (takeWhile (\<lambda>h. h \<noteq> p) hs))"
        using findIndex_Some[of hs "\<lambda>h. h = p"] by auto
      then show ?thesis using 0 True by simp
    next
      case False
      then have 1: "findIndex (\<lambda>h. h = p) hs = None" by (auto simp: findIndex_None)
      have "findIndex (\<lambda>h. includesStr h p) hs
              = Some (length (takeWhile (\<lambda>h. \<not> includesStr h p) hs))"
        using findIndex_Some[of hs "\<lambda>h. includesStr h p"] Cons.prems(2) 0 by auto
      then show ?thesis using 0 False 1 by simp
    qed
  next
    case (Suc i')
    have no: "\<forall>h\<in>set hs. \<not> includesStr h p" using Cons.prems(3) Suc by force
    then have 1: "findIndex (\<lambda>h. includesStr h p) hs = None" by (simp add: findIndex_None)
    have "\<forall>h\<in>set hs. h \<noteq> p" using no includesStr_refl by auto
    then have 2: "findIndex (\<lambda>h. h = p) hs = None" by (simp add: findIndex_None)
    have a: "i' < length ps" using Cons.prems(1) Suc by simp
    have b: "\<exists>h\<in>set hs. includesStr h (ps ! i')" using Cons.prems(2) Suc by simp
    have c: "\<forall>j<i'. \<forall>h\<in>set hs. \<not> includesStr h (ps ! j)"
    proof (intro allI impI)
      fix j assume "j < i'"
      then have "Suc j < i" using Suc by simp
      then show "\<forall>h\<in>set hs. \<not> includesStr h (ps ! j)" using Cons.prems(3) by fastforce
    qed
    show ?thesis using Cons.IH[OF a b c, of "Suc k"] 1 2 Suc by simp
  qed
qed

lemma overlapping_example:
  "findPriorityMatch overlappingHeaders PLACE_PRIORITY = \<lparr>index = 0, hconfidence = 0.88\<rparr>"
  unfolding overlappingHeaders_def by code_simp

text \<open>
  C5, as stated, fails: with the normalized headers \<open>place_name_x\<close> and \<open>place\<close>, the
  second header equals the priority token \<open>place\<close> (priority index 1), and yet the
  reported match is the substring match of the first header with the token
  \<open>place_name\<close> (priority index 0), scoring 0.88.
\<close>

theorem substring_match_beats_later_exact_match:
  "overlappingHeaders ! 1 = PLACE_PRIORITY ! 1 \<and>
   overlappingHeaders ! 0 \<noteq> PLACE_PRIORITY ! 0 \<and>
   findPriorityMatch overlappingHeaders PLACE_PRIORITY = \<lparr>index = 0, hconfidence = 0.88\<rparr>"
  by (simp add: overlapping_example) (simp add: overlappingHeaders_def PLACE_PRIORITY_def)

text \<open>
  C5, amended: the priority list is walked once, and at each token the headers are
  searched for an equal one and then for one that contains the token, before the next
  token is looked at. So the reported match is at the first priority index \<open>i\<close> whose
  token some header contains: the first header equal to the token, scoring
  \<open>0.96 - min(i * 0.01, 0.10)\<close>, when there is one, and otherwise the first header that
  contains it, scoring \<open>0.88 - min(i * 0.01, 0.10)\<close>. When no header contains any token,
  the result is index -1 with confidence 0.
\<close>

theorem findPriorityMatch_first_matching_priority:
  "((\<forall>p\<in>set ps. \<forall>h\<in>set hs. \<not> includesStr h p) \<longrightarrow>
      findPriorityMatch hs ps = \<lparr>index = -1, hconfidence = 0\<rparr>) \<and>
   (i < length ps \<and> (\<exists>h\<in>set hs. includesStr h (ps ! i)) \<and>
    (\<forall>j<i. \<forall>h\<in>set hs. \<not> includesStr h (ps ! j)) \<longrightarrow>
      findPriorityMatch hs ps =
        (if ps ! i \<in> set hs
         then \<lparr>index = int (length (takeWhile (\<lambda>h. h \<noteq> ps ! i) hs)),
               hconfidence = 0.96 - min (real i * 0.01) 0.1\<rparr>
         else \<lparr>index = int (length (takeWhile (\<lambda>h. \<not> includesStr h (ps ! i)) hs)),
               hconfidence = 0.88 - min (real i * 0.01) 0.1\<rparr>))"
  using findPriorityMatchFrom_none[of ps hs 0] findPriorityMatchFrom_first[of i ps hs 0]
  by (simp add: findPriorityMatch_def)

theorem findPriorityMatch_first_matching_priority_witness:
  "(0::nat) < length PLACE_PRIORITY \<and>
   (\<exists>h\<in>set overlappingHeaders. includesStr h (PLACE_PRIORITY ! 0)) \<and>
   PLACE_PRIORITY ! 0 \<notin> set overlappingHeaders \<and>
   findPriorityMatch overlappingHeaders PLACE_PRIORITY =
     \<lparr>index = int (length (takeWhile (\<lambda>h. \<not> includesStr h (PLACE_PRIORITY ! 0)) overlappingHeaders)),
      hconfidence = 0.88 - min (real (0::nat) * 0.01) 0.1\<rparr>"
proof -
  have a: "(0::nat) < length PLACE_PRIORITY" by (simp add: PLACE_PRIORITY_def)
  have b: "\<exists>h\<in>set overlappingHeaders. includesStr h (PLACE_PRIORITY ! 0)"
    unfolding overlappingHeaders_def PLACE_PRIORITY_def by code_simp
  have c: "PLACE_PRIORITY ! 0 \<notin> set overlappingHeaders"
    by (simp add: overlappingHeaders_def PLACE_PRIORITY_def)
  show ?thesis
    using a b c findPriorityMatch_first_matching_priority[of PLACE_PRIORITY overlappingHeaders 0]
    by simp
qed

subsection \<open>Confidence and value\<close>

lemma dashes_example: "extractFromText dashesText =
  \<lparr>placeName = [], location = [], placeConfidence = 0.55, locationConfidence = 0\<rparr>"
  unfolding dashesText_def by code_simp

lemma dashes_table: "createTextData dashesText Txt =
  \<lparr>headers = [''Content''], rows = [[CStr dashesText]], rowCount = 1, columnCount = 1,
   sourceType = Some Txt, ocrText = None\<rparr>"
  unfolding dashesText_def by code_simp

lemma dashes_clean: "cleanValue dashesText = []"
  unfolding dashesText_def by code_simp

lemma dashes_trim: "trim dashesText = dashesText"
  unfolding dashesText_def by code_simp

lemma dashes_cell: "readValueFromRow numStr [CStr dashesText] i = []"
proof (cases "i = 0")
  case True
  then show ?thesis by (simp add: readValueFromRow_def cellString_def dashes_clean)
next
  case False
  then show ?thesis by (auto simp: readValueFromRow_def)
qed

lemma dashes_table_strategy:
  "extractFromTableData numStr search (createTextData dashesText Txt) = emptyResult"
  by (simp add: dashes_table extractFromTableData_def getBestDataRow_def dashes_cell
      emptyResult_def Let_def)

lemma dashes_flattened: "flattenedText numStr [[CStr dashesText]] = dashesText"
proof -
  have "dashesText \<noteq> []" by (simp add: dashesText_def)
  then show ?thesis by (simp add: flattenedText_def cellString_def dashes_trim)
qed

text \<open>
  C2 fails on the code: for the text \<open>---\<close>, given as a string or as the table the parser
  makes of a text file with that content, the fallback for the place name finds the
  line, cleans it to the empty string and still reports the confidence 0.55. The result
  has an empty \<open>placeName\<close> with a non-zero \<open>placeConfidence\<close>.
\<close>

theorem empty_place_with_confidence:
  "extractMetadataFromContent numStr search (Text dashesText) =
     \<lparr>placeName = [], location = [], placeConfidence = 0.55, locationConfidence = 0\<rparr> \<and>
   extractMetadataFromContent numStr search (Table (createTextData dashesText Txt)) =
     \<lparr>placeName = [], location = [], placeConfidence = 0.55, locationConfidence = 0\<rparr>"
proof
  show "extractMetadataFromContent numStr search (Text dashesText) =
     \<lparr>placeName = [], location = [], placeConfidence = 0.55, locationConfidence = 0\<rparr>"
    by (simp add: extractMetadataFromContent_def dashes_example)
next
  have "extractMetadataFromContent numStr search (Table (createTextData dashesText Txt)) =
          extractFromText (flattenedText numStr [[CStr dashesText]])"
    by (simp add: extractMetadataFromContent_def dashes_table_strategy emptyResult_def Let_def)
       (simp add: dashes_table)
  then show "extractMetadataFromContent numStr search (Table (createTextData dashesText Txt)) =
     \<lparr>placeName = [], location = [], placeConfidence = 0.55, locationConfidence = 0\<rparr>"
    by (simp add: dashes_flattened dashes_example)
qed

theorem empty_place_with_confidence_witness:
  "placeName (extractMetadataFromContent (\<lambda>n. []) (\<lambda>q. []) (Text dashesText)) = [] \<and>
   placeConfidence (extractMetadataFromContent (\<lambda>n. []) (\<lambda>q. []) (Text dashesText)) \<noteq> 0"
  using empty_place_with_confidence[of "\<lambda>n. []" "\<lambda>q. []"] by simp

section \<open>Properties of the parsers\<close>

subsection \<open>Validation\<close>

lemmas validate_defs = EnhancedFileParser_validate_def FileParser_validate_def sizeErrors_def
  enhancedFormatMatch_def fileParserFormatMatch_def formatError_def Let_def

lemmas example_defs = demoConfig_def demoFormats_def customConfig_def customFormats_def
  newParser_def hasExtension_def endsWith_def getFileExtension_def toLowerCase_def
  toLowerChar_def txtFile_def customFile_def hugeExeFile_def pdfFile_def sheetFile_def
  csvFile_def suffix_to_prefix

text \<open>
  C9: in both parser classes the result of \<open>validate\<close> has \<open>isValid\<close> true exactly
  when its list of errors is empty.
\<close>

theorem isValid_iff_no_errors:
  "(isValid (EnhancedFileParser_validate cfg file)
      \<longleftrightarrow> errors (EnhancedFileParser_validate cfg file) = []) \<and>
   (isValid (FileParser_validate cfg file)
      \<longleftrightarrow> errors (FileParser_validate cfg file) = [])"
  by (simp add: EnhancedFileParser_validate_def FileParser_validate_def Let_def)

theorem isValid_iff_no_errors_witness:
  "\<not> isValid (EnhancedFileParser_validate demoConfig hugeExeFile) \<and>
   errors (EnhancedFileParser_validate demoConfig hugeExeFile) \<noteq> []"
proof -
  have "\<not> isValid (EnhancedFileParser_validate demoConfig hugeExeFile)"
    by (simp add: validate_defs example_defs)
  then show ?thesis using isValid_iff_no_errors[of demoConfig hugeExeFile] by simp
qed

text \<open>
  C4, as stated, fails for \<open>EnhancedFileParser.validate\<close>: with the single format
  \<open>custom\<close> whose validator accepts names ending in \<open>.txt\<close>, the validator returns
  true for \<open>test.txt\<close>; \<open>FileParser.validate\<close> accepts the file, and
  \<open>EnhancedFileParser.validate\<close> rejects it, because no configured extension matches.
\<close>

theorem validator_accepts_enhanced_rejects:
  "validator (hd customFormats) txtFile \<and>
   isValid (FileParser_validate customConfig txtFile) \<and>
   \<not> isValid (EnhancedFileParser_validate customConfig txtFile)"
  by (simp add: validate_defs example_defs)

text \<open>
  C4, amended: a file passes validation when its size is within the maximum and not
  zero and its format is accepted. \<open>FileParser.validate\<close> accepts the format when, for
  some configured format, the extension and the MIME type both match or the validator
  returns true. \<open>EnhancedFileParser.validate\<close> accepts it when, for some configured
  format, the extension matches and, beside that, the MIME type matches or the validator
  returns true; a validator alone does not make up for an extension that matches no
  configured format.
\<close>

theorem validate_acceptance_routes:
  "(isValid (FileParser_validate cfg file) \<longleftrightarrow>
      fsize file \<le> maxFileSize cfg \<and> fsize file \<noteq> 0 \<and>
      (\<exists>format\<in>set (supportedFormats cfg).
         (toLowerCase (extension format) = toLowerCase (getFileExtension (name file)) \<and>
          mimeType format = ftype file)
         \<or> validator format file)) \<and>
   (isValid (EnhancedFileParser_validate cfg file) \<longleftrightarrow>
      fsize file \<le> maxFileSize cfg \<and> fsize file \<noteq> 0 \<and>
      (\<exists>format\<in>set (supportedFormats cfg).
         toLowerCase (extension format) = toLowerCase (getFileExtension (name file)) \<and>
         (mimeType format = ftype file \<or> validator format file)))"
proof -
  have 1: "(fileParserFormatMatch cfg file \<noteq> None) \<longleftrightarrow>
      (\<exists>format\<in>set (supportedFormats cfg).
         (toLowerCase (extension format) = toLowerCase (getFileExtension (name file)) \<and>
          mimeType format = ftype file)
         \<or> validator format file)"
    by (auto simp: fileParserFormatMatch_def Let_def find_None_iff)
  have 2: "(enhancedFormatMatch cfg file \<noteq> None) \<longleftrightarrow>
      (\<exists>format\<in>set (supportedFormats cfg).
         toLowerCase (extension format) = toLowerCase (getFileExtension (name file)) \<and>
         (mimeType format = ftype file \<or> validator format file))"
    by (auto simp: enhancedFormatMatch_def Let_def find_None_iff)
  have 3: "isValid (FileParser_validate cfg file) \<longleftrightarrow>
      fsize file \<le> maxFileSize cfg \<and> fsize file \<noteq> 0 \<and> fileParserFormatMatch cfg file \<noteq> None"
    by (auto simp: FileParser_validate_def sizeErrors_def Let_def split: option.splits)
  have 4: "isValid (EnhancedFileParser_validate cfg file) \<longleftrightarrow>
      fsize file \<le> maxFileSize cfg \<and> fsize file \<noteq> 0 \<and> enhancedFormatMatch cfg file \<noteq> None"
    by (auto simp: EnhancedFileParser_validate_def sizeErrors_def Let_def split: option.splits)
  show ?thesis unfolding 3 4 1 2 by simp
qed

theorem validate_acceptance_routes_witness:
  "(\<exists>format\<in>set (supportedFormats customConfig).
      toLowerCase (extension format) = toLowerCase (getFileExtension (name customFile)) \<and>
      (mimeType format = ftype customFile \<or> validator format customFile)) \<and>
   isValid (EnhancedFileParser_validate customConfig customFile) \<and>
   isValid (FileParser_validate customConfig customFile)"
proof -
  have "\<exists>format\<in>set (supportedFormats customConfig).
      toLowerCase (extension format) = toLowerCase (getFileExtension (name customFile)) \<and>
      (mimeType format = ftype customFile \<or> validator format customFile)"
    by (simp add: example_defs)
  moreover have "fsize customFile \<le> maxFileSize customConfig \<and> fsize customFile \<noteq> 0"
    by (simp add: example_defs)
  ultimately show ?thesis
    using validate_acceptance_routes[of customConfig customFile] by blast
qed

lemma includesStr_mid: "includesStr (a @ t @ b) t"
  by (auto simp: includesStr_def sublist_def)

lemma size_message_includes:
  "includesStr (''File size ('' @ x @ ''MB) exceeds maximum allowed size of '' @ y @ ''MB'') ''size''"
proof -
  have "''File size ('' @ x @ ''MB) exceeds maximum allowed size of '' @ y @ ''MB''
        = ''File '' @ ''size'' @ ('' ('' @ x @ ''MB) exceeds maximum allowed size of '' @ y @ ''MB'')"
    by simp
  then show ?thesis using includesStr_mid by metis
qed

lemma formatError_includes: "includesStr (formatError cfg) ''not supported''"
proof -
  have "formatError cfg = ''File format '' @ ''not supported'' @
          (''. Supported formats: '' @ join '', '' (map extension (supportedFormats cfg)))"
    by (simp add: formatError_def)
  then show ?thesis using includesStr_mid by metis
qed

text \<open>
  C7: for a file larger than the configured maximum that no configured format accepts,
  \<open>validate\<close> returns exactly two errors, the first containing \<open>size\<close> and the second
  containing \<open>not supported\<close>; this holds for \<open>EnhancedFileParser.validate\<close> and
  for \<open>FileParser.validate\<close>, each with its own format test.
\<close>

theorem oversized_unsupported_two_errors:
  assumes "fsize file > maxFileSize cfg"
  shows "((\<forall>format\<in>set (supportedFormats cfg).
             \<not> (toLowerCase (extension format) = toLowerCase (getFileExtension (name file)) \<and>
                (mimeType format = ftype file \<or> validator format file))) \<longrightarrow>
          (\<exists>e1 e2. errors (EnhancedFileParser_validate cfg file) = [e1, e2] \<and>
                   includesStr e1 ''size'' \<and> includesStr e2 ''not supported'')) \<and>
         ((\<forall>format\<in>set (supportedFormats cfg).
             \<not> ((toLowerCase (extension format) = toLowerCase (getFileExtension (name file)) \<and>
                 mimeType format = ftype file) \<or> validator format file)) \<longrightarrow>
          (\<exists>e1 e2. errors (FileParser_validate cfg file) = [e1, e2] \<and>
                   includesStr e1 ''size'' \<and> includesStr e2 ''not supported''))"
proof -
  have nz: "fsize file \<noteq> 0" using assms by auto
  have s: "sizeErrors cfg file =
      [''File size ('' @ toFixed2MB (fsize file) @ ''MB) exceeds maximum allowed size of ''
         @ toFixed2MB (maxFileSize cfg) @ ''MB'']"
    using assms nz by (simp add: sizeErrors_def)
  show ?thesis
  proof (intro conjI impI)
    assume "\<forall>format\<in>set (supportedFormats cfg).
             \<not> (toLowerCase (extension format) = toLowerCase (getFileExtension (name file)) \<and>
                (mimeType format = ftype file \<or> validator format file))"
    then have "enhancedFormatMatch cfg file = None"
      by (auto simp: enhancedFormatMatch_def Let_def find_None_iff)
    then have "errors (EnhancedFileParser_validate cfg file) =
        [''File size ('' @ toFixed2MB (fsize file) @ ''MB) exceeds maximum allowed size of ''
           @ toFixed2MB (maxFileSize cfg) @ ''MB'', formatError cfg]"
      by (simp add: EnhancedFileParser_validate_def s)
    then show "\<exists>e1 e2. errors (EnhancedFileParser_validate cfg file) = [e1, e2] \<and>
                   includesStr e1 ''size'' \<and> includesStr e2 ''not supported''"
      using size_message_includes formatError_includes by blast
  next
    assume "\<forall>format\<in>set (supportedFormats cfg).
             \<not> ((toLowerCase (extension format) = toLowerCase (getFileExtension (name file)) \<and>
                 mimeType format = ftype file) \<or> validator format file)"
    then have "fileParserFormatMatch cfg file = None"
      by (auto simp: fileParserFormatMatch_def Let_def find_None_iff)
    then have "errors (FileParser_validate cfg file) =
        [''File size ('' @ toFixed2MB (fsize file) @ ''MB) exceeds maximum allowed size of ''
           @ toFixed2MB (maxFileSize cfg) @ ''MB'', formatError cfg]"
      by (simp add: FileParser_validate_def s)
    then show "\<exists>e1 e2. errors (FileParser_validate cfg file) = [e1, e2] \<and>
                   includesStr e1 ''size'' \<and> includesStr e2 ''not supported''"
      using size_message_includes formatError_includes by blast
  qed
qed

theorem oversized_unsupported_two_errors_witness:
  "fsize hugeExeFile > maxFileSize demoConfig \<and>
   list_all (\<lambda>format.
       \<not> (toLowerCase (extension format) = toLowerCase (getFileExtension (name hugeExeFile)) \<and>
          (mimeType format = ftype hugeExeFile \<or> validator format hugeExeFile)))
     (supportedFormats demoConfig) \<and>
   (\<exists>e1 e2. errors (EnhancedFileParser_validate demoConfig hugeExeFile) = [e1, e2] \<and>
            includesStr e1 ''size'' \<and> includesStr e2 ''not supported'')"
proof -
  have a: "fsize hugeExeFile > maxFileSize demoConfig" by (simp add: example_defs)
  have b: "\<forall>format\<in>set (supportedFormats demoConfig).
       \<not> (toLowerCase (extension format) = toLowerCase (getFileExtension (name hugeExeFile)) \<and>
          (mimeType format = ftype hugeExeFile \<or> validator format hugeExeFile))"
    by (simp add: example_defs)
  have c: "\<exists>e1 e2. errors (EnhancedFileParser_validate demoConfig hugeExeFile) = [e1, e2] \<and>
            includesStr e1 ''size'' \<and> includesStr e2 ''not supported''"
    using b oversized_unsupported_two_errors[OF a] by blast
  show ?thesis using a b c by (simp add: list_all_iff)
qed


subsection \<open>The parser\<close>

lemmas env_defs = noLibraries_def raggedSheetEnv_def csvEnv_def blankPdfEnv_def
  brokenPdfEnv_def blankPdfDocument_def

lemma pdfFile_valid: "isValid (EnhancedFileParser_validate demoConfig pdfFile)"
  by (simp add: validate_defs example_defs)

lemma sheetFile_valid: "isValid (EnhancedFileParser_validate demoConfig sheetFile)"
  by (simp add: validate_defs example_defs)

lemma csvFile_valid: "isValid (EnhancedFileParser_validate demoConfig csvFile)"
  by (simp add: validate_defs example_defs)

lemma pdfFile_route: "toLowerCase (getFileExtension (name pdfFile)) = ''pdf''"
  by (simp add: example_defs)

lemma broken_pdf_example:
  "parse demoConfig brokenPdfEnv pdfFile =
     (Failure \<lparr>code = ''PARSE_ERROR'', message = ''Invalid PDF structure.'',
               details = ThrownDetails (Error ''Invalid PDF structure.'')\<rparr>, 0)"
  using pdfFile_route
  by (simp add: parse_def pdfFile_valid routeByExtension_def parsePDF_def env_defs Let_def)

lemma ragged_sheet_example:
  "parse demoConfig raggedSheetEnv sheetFile =
     (Success \<lparr>raw = \<lparr>headers = [''Place'', ''City''], rows = [[CStr ''Eiffel Tower'']],
                      rowCount = 1, columnCount = 2, sourceType = Some Excel, ocrText = None\<rparr>,
               metadata = extractMetadata sheetFile\<rparr>, 0)"
proof -
  have "toLowerCase (getFileExtension (name sheetFile)) = ''xlsx''" by (simp add: example_defs)
  then show ?thesis
    by (simp add: parse_def sheetFile_valid routeByExtension_def parseExcel_def env_defs Let_def
        toCellValue_def)
qed

lemma csv_example:
  "parse demoConfig csvEnv csvFile =
     (Success \<lparr>raw = \<lparr>headers = [''Place Name'', ''Location''],
                      rows = [[CStr ''Eiffel Tower'', CStr ''Paris'']],
                      rowCount = 1, columnCount = 2, sourceType = Some Csv, ocrText = None\<rparr>,
               metadata = extractMetadata csvFile\<rparr>, 0)"
proof -
  have "toLowerCase (getFileExtension (name csvFile)) = ''csv''" by (simp add: example_defs)
  then show ?thesis
    by (simp add: parse_def csvFile_valid routeByExtension_def parseCSV_def env_defs Let_def
        toCellValue_def)
qed

text \<open>
  C1: for every configuration, every behaviour of the libraries and every file,
  \<open>parse\<close> gives a tagged result: \<open>Success\<close> with a content, or \<open>Failure\<close> whose code
  is \<open>VALIDATION_ERROR\<close> or \<open>PARSE_ERROR\<close>. Every exception of an extractor is a value
  the \<open>catch\<close> turns into such a failure.
\<close>

theorem parse_returns_tagged_result:
  "(\<exists>content. fst (parse cfg env file) = Success content) \<or>
   (\<exists>err. fst (parse cfg env file) = Failure err \<and>
          (code err = ''VALIDATION_ERROR'' \<or> code err = ''PARSE_ERROR''))"
  by (cases "routeByExtension env file") (auto simp: parse_def Let_def split: sum.splits)

theorem parse_returns_tagged_result_witness:
  "(\<exists>err. fst (parse demoConfig brokenPdfEnv pdfFile) = Failure err \<and>
          (code err = ''VALIDATION_ERROR'' \<or> code err = ''PARSE_ERROR'')) \<and>
   fst (parse demoConfig brokenPdfEnv pdfFile) =
     Failure \<lparr>code = ''PARSE_ERROR'', message = ''Invalid PDF structure.'',
              details = ThrownDetails (Error ''Invalid PDF structure.'')\<rparr>"
  using parse_returns_tagged_result[of demoConfig brokenPdfEnv pdfFile]
  by (simp add: broken_pdf_example)

subsection \<open>The shape of the tables\<close>

lemma createTextData_shape:
  "rowCount (createTextData t st) = length (rows (createTextData t st)) \<and>
   (\<forall>r\<in>set (rows (createTextData t st)). length r = columnCount (createTextData t st))"
  by (auto simp: createTextData_def Let_def)

lemma parseCSV_shape:
  "parseCSV env file = Inr d \<Longrightarrow>
   rowCount d = length (rows d) \<and> (\<forall>r\<in>set (rows d). length r = columnCount d)"
  by (auto simp: parseCSV_def Let_def split: PapaOutcome.splits)

lemma parseExcel_shape: "parseExcel env file = Inr d \<Longrightarrow> rowCount d = length (rows d)"
  by (auto simp: parseExcel_def Let_def split: sum.splits list.splits)

lemma parsePDF_shape:
  "parsePDF env file = Inr d \<Longrightarrow>
   rowCount d = length (rows d) \<and> (\<forall>r\<in>set (rows d). length r = columnCount d)"
  using createTextData_shape
  by (auto simp: parsePDF_def Let_def split: sum.splits if_splits)

lemma parseText_shape:
  "parseText env file = Inr d \<Longrightarrow>
   rowCount d = length (rows d) \<and> (\<forall>r\<in>set (rows d). length r = columnCount d)"
  using createTextData_shape
  by (auto simp: parseText_def split: sum.splits)

lemma parseImage_shape:
  "fst (parseImage env file) = Inr d \<Longrightarrow>
   rowCount d = length (rows d) \<and> (\<forall>r\<in>set (rows d). length r = columnCount d)"
  using createTextData_shape
  by (auto simp: parseImage_def Let_def split: sum.splits option.splits if_splits prod.splits)

lemma mapE_length: "mapE f xs = Inr ys \<Longrightarrow> length ys = length xs"
  by (induction xs arbitrary: ys) (auto split: sum.splits)

lemma mapE_set: "mapE f xs = Inr ys \<Longrightarrow> y \<in> set ys \<Longrightarrow> \<exists>x\<in>set xs. f x = Inr y"
  by (induction xs arbitrary: ys) (auto split: sum.splits)

lemma tableOfObjects_shape:
  assumes "tableOfObjects env first objs = Inr d"
  shows "rowCount d = length (rows d) \<and> (\<forall>r\<in>set (rows d). length r = columnCount d)"
proof -
  from assms obtain hs rs where hs: "objectKeys first = Inr hs"
    and rs: "mapE (rowOfObject env hs) objs = Inr rs"
    and d: "d = \<lparr>headers = hs, rows = rs, rowCount = length rs, columnCount = length hs,
                 sourceType = Some Json, ocrText = None\<rparr>"
    by (auto simp: tableOfObjects_def split: sum.splits)
  have "\<forall>r\<in>set rs. length r = length hs"
  proof
    fix r assume "r \<in> set rs"
    from mapE_set[OF rs this] obtain obj where "rowOfObject env hs obj = Inr r" by blast
    then show "length r = length hs" unfolding rowOfObject_def by (rule mapE_length)
  qed
  then show ?thesis using d by simp
qed

lemma singleObject_shape:
  "singleObject env data = Inr d \<Longrightarrow>
   rowCount d = length (rows d) \<and> (\<forall>r\<in>set (rows d). length r = columnCount d)"
  by (auto simp: singleObject_def split: jsvalue.splits)

lemma nestedOrSingle_shape:
  "nestedOrSingle env data = Inr d \<Longrightarrow>
   rowCount d = length (rows d) \<and> (\<forall>r\<in>set (rows d). length r = columnCount d)"
  unfolding nestedOrSingle_def
  by (auto split: sum.splits option.splits if_splits jsvalue.splits list.splits
      dest: singleObject_shape tableOfObjects_shape)

lemma parseJSON_shape:
  "parseJSON env file = Inr d \<Longrightarrow>
   rowCount d = length (rows d) \<and> (\<forall>r\<in>set (rows d). length r = columnCount d)"
  unfolding parseJSON_def parseJSONData_def
  by (auto split: sum.splits jsvalue.splits list.splits if_splits
      dest: nestedOrSingle_shape tableOfObjects_shape)

lemma parseExcel_sourceType: "parseExcel env file = Inr d \<Longrightarrow> sourceType d = Some Excel"
  by (auto simp: parseExcel_def Let_def split: sum.splits list.splits)

lemma routeByExtension_shape:
  assumes "routeByExtension env file = (Inr d, n)"
  shows "rowCount d = length (rows d) \<and>
         (sourceType d \<noteq> Some Excel \<longrightarrow> (\<forall>r\<in>set (rows d). length r = columnCount d))"
proof -
  let ?e = "toLowerCase (getFileExtension (name file))"
  consider (a) "?e = ''csv''" "parseCSV env file = Inr d"
    | (b) "parseExcel env file = Inr d"
    | (c) "parsePDF env file = Inr d"
    | (d) "parseJSON env file = Inr d"
    | (e) "parseText env file = Inr d"
    | (f) "fst (parseImage env file) = Inr d"
    using assms by (auto simp: routeByExtension_def Let_def split: if_splits)
  then show ?thesis
  proof cases
    case a
    then show ?thesis using parseCSV_shape by blast
  next
    case b
    then show ?thesis using parseExcel_shape parseExcel_sourceType by blast
  next
    case c
    then show ?thesis using parsePDF_shape by blast
  next
    case d
    then show ?thesis using parseJSON_shape by blast
  next
    case e
    then show ?thesis using parseText_shape by blast
  next
    case f
    then show ?thesis using parseImage_shape by blast
  qed
qed

text \<open>
  C3, as stated, fails for spreadsheets: a sheet with two header cells and a data row
  of one cell is parsed with success into a table whose \<open>columnCount\<close> is 2 and whose
  only row has length 1.
\<close>

theorem spreadsheet_row_shorter_than_header:
  "fst (parse demoConfig raggedSheetEnv sheetFile) =
     Success \<lparr>raw = \<lparr>headers = [''Place'', ''City''], rows = [[CStr ''Eiffel Tower'']],
                     rowCount = 1, columnCount = 2, sourceType = Some Excel, ocrText = None\<rparr>,
              metadata = extractMetadata sheetFile\<rparr>"
  by (simp add: ragged_sheet_example)

text \<open>
  C3, amended: for every \<open>Success\<close> of \<open>parse\<close>, \<open>rowCount\<close> is the number of rows, and
  when the table does not come from a spreadsheet every row has \<open>columnCount\<close> cells. A
  spreadsheet row keeps the length SheetJS gives it.
\<close>

theorem parse_success_table_shape:
  assumes "fst (parse cfg env file) = Success content"
  shows "rowCount (raw content) = length (rows (raw content)) \<and>
         (sourceType (raw content) \<noteq> Some Excel \<longrightarrow>
            (\<forall>row\<in>set (rows (raw content)). length row = columnCount (raw content)))"
proof -
  obtain res n where r: "routeByExtension env file = (res, n)"
    by (cases "routeByExtension env file") auto
  from assms r have "res = Inr (raw content)"
    by (auto simp: parse_def Let_def split: if_splits sum.splits)
  then show ?thesis using routeByExtension_shape r by blast
qed

theorem parse_success_table_shape_witness:
  "fst (parse demoConfig csvEnv csvFile) =
     Success \<lparr>raw = \<lparr>headers = [''Place Name'', ''Location''],
                     rows = [[CStr ''Eiffel Tower'', CStr ''Paris'']],
                     rowCount = 1, columnCount = 2, sourceType = Some Csv, ocrText = None\<rparr>,
              metadata = extractMetadata csvFile\<rparr> \<and>
   Some Csv \<noteq> Some Excel \<and>
   list_all (\<lambda>row. length row = (2::nat)) [[CStr ''Eiffel Tower'', CStr ''Paris'']]"
proof -
  have a: "fst (parse demoConfig csvEnv csvFile) =
     Success \<lparr>raw = \<lparr>headers = [''Place Name'', ''Location''],
                     rows = [[CStr ''Eiffel Tower'', CStr ''Paris'']],
                     rowCount = 1, columnCount = 2, sourceType = Some Csv, ocrText = None\<rparr>,
              metadata = extractMetadata csvFile\<rparr>"
    by (simp add: csv_example)
  show ?thesis using a parse_success_table_shape[OF a] by simp
qed

subsection \<open>PDF files and OCR\<close>

lemma trim_blank: "\<forall>c\<in>set t. isSpace c \<Longrightarrow> trim t = []"
proof -
  assume "\<forall>c\<in>set t. isSpace c"
  then have d: "dropWhile isSpace t = []" by (rule iffD2[OF dropWhile_eq_Nil_conv])
  show ?thesis unfolding trim_def d by simp
qed

lemma routeByExtension_pdf:
  "toLowerCase (getFileExtension (name file)) = ''pdf'' \<Longrightarrow>
   routeByExtension env file = (parsePDF env file, 0)"
  by (simp add: routeByExtension_def Let_def)

lemma isSpace_space: "isSpace (CHR '' '')"
  by (simp add: isSpace_def)

lemma collapseSpaces_blank: "\<forall>c\<in>set s. isSpace c \<Longrightarrow> \<forall>c\<in>set (collapseSpaces s). isSpace c"
proof (induction s rule: collapseSpaces.induct)
  case 1
  then show ?case by simp
next
  case (2 c cs)
  have sp: "isSpace c" using 2(3) by simp
  have "\<forall>x\<in>set (dropWhile isSpace cs). isSpace x"
    using 2(3) by (meson list.set_intros(2) set_dropWhileD)
  then have ih: "\<forall>x\<in>set (collapseSpaces (dropWhile isSpace cs)). isSpace x"
    using 2(1)[OF sp] by blast
  have eq: "collapseSpaces (c # cs) = CHR '' '' # collapseSpaces (dropWhile isSpace cs)"
    using sp by simp
  show ?case unfolding eq using ih isSpace_space by simp
qed

lemma join_blank_sep:
  "\<forall>c\<in>set sep. isSpace c \<Longrightarrow> \<forall>x\<in>set xs. \<forall>c\<in>set x. isSpace c \<Longrightarrow>
   \<forall>c\<in>set (join sep xs). isSpace c"
  by (induction sep xs rule: join.induct) auto

lemma join_blank:
  "\<forall>x\<in>set xs. \<forall>c\<in>set x. isSpace c \<Longrightarrow> \<forall>c\<in>set (join '' '' xs). isSpace c"
  using join_blank_sep[of "'' ''" xs] isSpace_space by simp
lemma extractNativePdfText_blank:
  assumes "getTextContent page = Inr items"
    and "list_all (\<lambda>item. case item of None \<Rightarrow> True | Some s \<Rightarrow> list_all isSpace s) items"
  shows "extractNativePdfText page = Inr []"
proof -
  have "\<forall>x\<in>set (map (\<lambda>item. case item of None \<Rightarrow> [] | Some s \<Rightarrow> s) items). \<forall>c\<in>set x. isSpace c"
    using assms(2) by (auto simp: list_all_iff split: option.splits)
  then have "\<forall>c\<in>set (join '' ''
               (map (\<lambda>item. case item of None \<Rightarrow> [] | Some s \<Rightarrow> s) items)). isSpace c"
    by (rule join_blank)
  then have "\<forall>c\<in>set (collapseSpaces (join '' ''
               (map (\<lambda>item. case item of None \<Rightarrow> [] | Some s \<Rightarrow> s) items))). isSpace c"
    by (rule collapseSpaces_blank)
  then have "trim (collapseSpaces (join '' ''
               (map (\<lambda>item. case item of None \<Rightarrow> [] | Some s \<Rightarrow> s) items))) = []"
    by (rule trim_blank)
  then show ?thesis unfolding extractNativePdfText_def assms(1) by simp
qed

lemma blankPage_text:
  assumes "blankPage doc p"
  shows "\<exists>page. getPage doc p = Inr page \<and> extractNativePdfText page = Inr []"
proof -
  from assms obtain page where pg: "getPage doc p = Inr page"
    by (cases "getPage doc p") (simp_all add: blankPage_def)
  from assms pg obtain items where it: "getTextContent page = Inr items"
    by (cases "getTextContent page") (simp_all add: blankPage_def)
  have "list_all (\<lambda>item. case item of None \<Rightarrow> True | Some s \<Rightarrow> list_all isSpace s) items"
    using assms pg it by (simp add: blankPage_def)
  with it have "extractNativePdfText page = Inr []" by (rule extractNativePdfText_blank)
  with pg show ?thesis by blast
qed

lemma collectPageTexts_blank:
  "list_all (blankPage doc) ps \<Longrightarrow> collectPageTexts doc ps acc = Inr acc"
proof (induction ps)
  case Nil
  then show ?case by simp
next
  case (Cons p ps)
  from Cons.prems have "blankPage doc p" by simp
  from blankPage_text[OF this] obtain page where pg: "getPage doc p = Inr page"
    "extractNativePdfText page = Inr []" by blast
  from Cons.prems have "list_all (blankPage doc) ps" by simp
  then have "collectPageTexts doc ps acc = Inr acc" by (rule Cons.IH)
  then show ?case by (simp add: pg)
qed

lemma parse_pdf_thrown:
  assumes "toLowerCase (getFileExtension (name file)) = ''pdf''"
    and "isValid (EnhancedFileParser_validate cfg file)"
    and "parsePDF env file = Inl thrown"
  shows "fst (parse cfg env file) =
     Failure \<lparr>code = ''PARSE_ERROR'',
              message = (case thrown of Error msg \<Rightarrow> msg | NonError \<Rightarrow> ''Unknown parsing error''),
              details = ThrownDetails thrown\<rparr>"
proof -
  have r: "routeByExtension env file = (parsePDF env file, 0)"
    using assms(1) by (rule routeByExtension_pdf)
  show ?thesis by (simp add: parse_def assms(2) r assms(3))
qed

lemma parsePDF_blank:
  assumes "hasDocument env" and "getDocument env file = Inr doc"
    and "collectPageTexts doc [1..<Suc (numPages doc)] [] = Inr pageTexts"
    and "\<forall>c\<in>set (join [CHR 0x0A] pageTexts). isSpace c"
  shows "parsePDF env file =
     Inl (case cleanup doc of
            Some e \<Rightarrow> e
          | None \<Rightarrow> (case destroy doc of
                       Some e \<Rightarrow> e
                     | None \<Rightarrow> Error ''No readable native text found in PDF''))"
proof -
  have t: "trim (join [CHR 0x0A] pageTexts) = []" using assms(4) by (rule trim_blank)
  have n: "nativePdfText doc =
      (case cleanup doc of
         Some e \<Rightarrow> Inl e
       | None \<Rightarrow> (case destroy doc of
                    Some e \<Rightarrow> Inl e
                  | None \<Rightarrow> Inr (join [CHR 0x0A] pageTexts)))"
    unfolding nativePdfText_def releaseDocument_def assms(3)
    by (simp split: option.splits)
  show ?thesis
    by (simp add: parsePDF_def assms(1,2) n t split: option.splits)
qed

lemma blankTextLayer_collect:
  "blankTextLayer doc \<Longrightarrow> collectPageTexts doc [1..<Suc (numPages doc)] [] = Inr []"
  unfolding blankTextLayer_def by (rule collectPageTexts_blank)

lemma failing_destroy_blank: "blankTextLayer failingDestroyDocument"
  by (simp add: failingDestroyDocument_def blankTextLayer_def blankPage_def blankPdfDocument_def
      isSpace_def)

lemma failing_destroy_nativePdfText:
  "nativePdfText failingDestroyDocument = Inl (Error ''destroy failed'')"
  by (simp add: nativePdfText_def releaseDocument_def failingDestroyDocument_def
      blankPdfDocument_def)

lemma failing_destroy_example:
  "parse demoConfig failingDestroyEnv pdfFile =
     (Failure \<lparr>code = ''PARSE_ERROR'', message = ''destroy failed'',
               details = ThrownDetails (Error ''destroy failed'')\<rparr>, 0)"
  using pdfFile_route
  by (simp add: parse_def pdfFile_valid routeByExtension_def parsePDF_def failingDestroyEnv_def
      noLibraries_def failing_destroy_nativePdfText Let_def)

text \<open>
  C6, as stated, fails in its second half: \<open>parsePDF\<close> releases the document
  (\<open>cleanup\<close>, \<open>destroy\<close>) in a \<open>finally\<close> block before it looks at the text. For a valid
  PDF file whose only page holds a single space and whose \<open>destroy()\<close> rejects with
  \<open>new Error('destroy failed')\<close>, the result is \<open>Failure\<close> with code \<open>PARSE_ERROR\<close> and
  the message \<open>destroy failed\<close>.
\<close>

theorem blank_pdf_other_message:
  "toLowerCase (getFileExtension (name pdfFile)) = ''pdf'' \<and>
   isValid (EnhancedFileParser_validate demoConfig pdfFile) \<and>
   hasDocument failingDestroyEnv \<and>
   getDocument failingDestroyEnv pdfFile = Inr failingDestroyDocument \<and>
   blankTextLayer failingDestroyDocument \<and>
   fst (parse demoConfig failingDestroyEnv pdfFile) =
     Failure \<lparr>code = ''PARSE_ERROR'', message = ''destroy failed'',
              details = ThrownDetails (Error ''destroy failed'')\<rparr>"
  using pdfFile_route pdfFile_valid failing_destroy_blank
  by (simp add: failing_destroy_example) (simp add: failingDestroyEnv_def noLibraries_def)

text \<open>
  C6, amended: for a file whose extension is \<open>pdf\<close> in any letter case, \<open>parse\<close> never
  calls \<open>createOcrWorker\<close>. When such a file passes validation, the document is opened,
  and the text extracted from its pages is empty or white space only, the result is
  \<open>Failure\<close> with code \<open>PARSE_ERROR\<close>, carrying what was thrown: the exception of
  \<open>cleanup\<close> when it fails, else the one of \<open>destroy\<close> when it fails, else the error
  \<open>No readable native text found in PDF\<close>. So the message is
  \<open>No readable native text found in PDF\<close> when the document is released without an
  exception. Both statements are given for pages whose texts join to white space and
  for a document with a blank text layer.
\<close>

theorem pdf_no_ocr_blank_text_failure:
  assumes "toLowerCase (getFileExtension (name file)) = ''pdf''"
  shows "snd (parse cfg env file) = 0 \<and>
   (isValid (EnhancedFileParser_validate cfg file) \<and> hasDocument env \<and>
    getDocument env file = Inr doc \<and>
    collectPageTexts doc [1..<Suc (numPages doc)] [] = Inr pageTexts \<and>
    (\<forall>c\<in>set (join [CHR 0x0A] pageTexts). isSpace c) \<longrightarrow>
      (let thrown = (case cleanup doc of
                       Some e \<Rightarrow> e
                     | None \<Rightarrow> (case destroy doc of
                                  Some e \<Rightarrow> e
                                | None \<Rightarrow> Error ''No readable native text found in PDF''))
       in fst (parse cfg env file) =
            Failure \<lparr>code = ''PARSE_ERROR'',
                     message = (case thrown of Error msg \<Rightarrow> msg
                                | NonError \<Rightarrow> ''Unknown parsing error''),
                     details = ThrownDetails thrown\<rparr>)) \<and>
   (isValid (EnhancedFileParser_validate cfg file) \<and> hasDocument env \<and>
    getDocument env file = Inr doc \<and>
    collectPageTexts doc [1..<Suc (numPages doc)] [] = Inr pageTexts \<and>
    (\<forall>c\<in>set (join [CHR 0x0A] pageTexts). isSpace c) \<and>
    cleanup doc = None \<and> destroy doc = None \<longrightarrow>
      fst (parse cfg env file) =
        Failure \<lparr>code = ''PARSE_ERROR'', message = ''No readable native text found in PDF'',
                 details = ThrownDetails (Error ''No readable native text found in PDF'')\<rparr>) \<and>
   (isValid (EnhancedFileParser_validate cfg file) \<and> hasDocument env \<and>
    getDocument env file = Inr doc \<and> blankTextLayer doc \<longrightarrow>
      (let thrown = (case cleanup doc of
                       Some e \<Rightarrow> e
                     | None \<Rightarrow> (case destroy doc of
                                  Some e \<Rightarrow> e
                                | None \<Rightarrow> Error ''No readable native text found in PDF''))
       in fst (parse cfg env file) =
            Failure \<lparr>code = ''PARSE_ERROR'',
                     message = (case thrown of Error msg \<Rightarrow> msg
                                | NonError \<Rightarrow> ''Unknown parsing error''),
                     details = ThrownDetails thrown\<rparr>)) \<and>
   (isValid (EnhancedFileParser_validate cfg file) \<and> hasDocument env \<and>
    getDocument env file = Inr doc \<and> cleanup doc = None \<and> destroy doc = None \<and>
    blankTextLayer doc \<longrightarrow>
      fst (parse cfg env file) =
        Failure \<lparr>code = ''PARSE_ERROR'', message = ''No readable native text found in PDF'',
                 details = ThrownDetails (Error ''No readable native text found in PDF'')\<rparr>)"
proof -
  have r: "routeByExtension env file = (parsePDF env file, 0)"
    using assms by (rule routeByExtension_pdf)
  have p1: "snd (parse cfg env file) = 0"
    by (simp add: parse_def r Let_def split: sum.splits)
  have gen: "\<And>texts. isValid (EnhancedFileParser_validate cfg file) \<Longrightarrow> hasDocument env \<Longrightarrow>
      getDocument env file = Inr doc \<Longrightarrow>
      collectPageTexts doc [1..<Suc (numPages doc)] [] = Inr texts \<Longrightarrow>
      \<forall>c\<in>set (join [CHR 0x0A] texts). isSpace c \<Longrightarrow>
      (let thrown = (case cleanup doc of
                       Some e \<Rightarrow> e
                     | None \<Rightarrow> (case destroy doc of
                                  Some e \<Rightarrow> e
                                | None \<Rightarrow> Error ''No readable native text found in PDF''))
       in fst (parse cfg env file) =
            Failure \<lparr>code = ''PARSE_ERROR'',
                     message = (case thrown of Error msg \<Rightarrow> msg
                                | NonError \<Rightarrow> ''Unknown parsing error''),
                     details = ThrownDetails thrown\<rparr>)"
  proof -
    fix texts
    assume v: "isValid (EnhancedFileParser_validate cfg file)" and h: "hasDocument env"
      and g: "getDocument env file = Inr doc"
      and c: "collectPageTexts doc [1..<Suc (numPages doc)] [] = Inr texts"
      and b: "\<forall>c\<in>set (join [CHR 0x0A] texts). isSpace c"
    show "(let thrown = (case cleanup doc of
                       Some e \<Rightarrow> e
                     | None \<Rightarrow> (case destroy doc of
                                  Some e \<Rightarrow> e
                                | None \<Rightarrow> Error ''No readable native text found in PDF''))
       in fst (parse cfg env file) =
            Failure \<lparr>code = ''PARSE_ERROR'',
                     message = (case thrown of Error msg \<Rightarrow> msg
                                | NonError \<Rightarrow> ''Unknown parsing error''),
                     details = ThrownDetails thrown\<rparr>)"
      unfolding Let_def using assms v parsePDF_blank[OF h g c b] by (rule parse_pdf_thrown)
  qed
  have e: "\<forall>c\<in>set (join [CHR 0x0A] ([]::string list)). isSpace c" by simp
  have p2: "isValid (EnhancedFileParser_validate cfg file) \<and> hasDocument env \<and>
    getDocument env file = Inr doc \<and>
    collectPageTexts doc [1..<Suc (numPages doc)] [] = Inr pageTexts \<and>
    (\<forall>c\<in>set (join [CHR 0x0A] pageTexts). isSpace c) \<longrightarrow>
      (let thrown = (case cleanup doc of
                       Some e \<Rightarrow> e
                     | None \<Rightarrow> (case destroy doc of
                                  Some e \<Rightarrow> e
                                | None \<Rightarrow> Error ''No readable native text found in PDF''))
       in fst (parse cfg env file) =
            Failure \<lparr>code = ''PARSE_ERROR'',
                     message = (case thrown of Error msg \<Rightarrow> msg
                                | NonError \<Rightarrow> ''Unknown parsing error''),
                     details = ThrownDetails thrown\<rparr>)"
    using gen[of pageTexts] by blast
  have p4: "isValid (EnhancedFileParser_validate cfg file) \<and> hasDocument env \<and>
    getDocument env file = Inr doc \<and> blankTextLayer doc \<longrightarrow>
      (let thrown = (case cleanup doc of
                       Some e \<Rightarrow> e
                     | None \<Rightarrow> (case destroy doc of
                                  Some e \<Rightarrow> e
                                | None \<Rightarrow> Error ''No readable native text found in PDF''))
       in fst (parse cfg env file) =
            Failure \<lparr>code = ''PARSE_ERROR'',
                     message = (case thrown of Error msg \<Rightarrow> msg
                                | NonError \<Rightarrow> ''Unknown parsing error''),
                     details = ThrownDetails thrown\<rparr>)"
    using gen[of "[]"] e blankTextLayer_collect[of doc] by blast
  have p3: "isValid (EnhancedFileParser_validate cfg file) \<and> hasDocument env \<and>
    getDocument env file = Inr doc \<and>
    collectPageTexts doc [1..<Suc (numPages doc)] [] = Inr pageTexts \<and>
    (\<forall>c\<in>set (join [CHR 0x0A] pageTexts). isSpace c) \<and>
    cleanup doc = None \<and> destroy doc = None \<longrightarrow>
      fst (parse cfg env file) =
        Failure \<lparr>code = ''PARSE_ERROR'', message = ''No readable native text found in PDF'',
                 details = ThrownDetails (Error ''No readable native text found in PDF'')\<rparr>"
  proof
    assume a: "isValid (EnhancedFileParser_validate cfg file) \<and> hasDocument env \<and>
      getDocument env file = Inr doc \<and>
      collectPageTexts doc [1..<Suc (numPages doc)] [] = Inr pageTexts \<and>
      (\<forall>c\<in>set (join [CHR 0x0A] pageTexts). isSpace c) \<and>
      cleanup doc = None \<and> destroy doc = None"
    then have n: "cleanup doc = None" "destroy doc = None" by simp_all
    from a p2 show "fst (parse cfg env file) =
        Failure \<lparr>code = ''PARSE_ERROR'', message = ''No readable native text found in PDF'',
                 details = ThrownDetails (Error ''No readable native text found in PDF'')\<rparr>"
      by (simp add: n)
  qed
  have p5: "isValid (EnhancedFileParser_validate cfg file) \<and> hasDocument env \<and>
    getDocument env file = Inr doc \<and> cleanup doc = None \<and> destroy doc = None \<and>
    blankTextLayer doc \<longrightarrow>
      fst (parse cfg env file) =
        Failure \<lparr>code = ''PARSE_ERROR'', message = ''No readable native text found in PDF'',
                 details = ThrownDetails (Error ''No readable native text found in PDF'')\<rparr>"
  proof
    assume a: "isValid (EnhancedFileParser_validate cfg file) \<and> hasDocument env \<and>
      getDocument env file = Inr doc \<and> cleanup doc = None \<and> destroy doc = None \<and>
      blankTextLayer doc"
    then have n: "cleanup doc = None" "destroy doc = None" by simp_all
    from a p4 show "fst (parse cfg env file) =
        Failure \<lparr>code = ''PARSE_ERROR'', message = ''No readable native text found in PDF'',
                 details = ThrownDetails (Error ''No readable native text found in PDF'')\<rparr>"
      by (simp add: n)
  qed
  show ?thesis using p1 p2 p3 p4 p5 by (intro conjI)
qed

theorem pdf_no_ocr_blank_text_failure_witness:
  "toLowerCase (getFileExtension (name pdfFile)) = ''pdf'' \<and>
   isValid (EnhancedFileParser_validate demoConfig pdfFile) \<and> hasDocument blankPdfEnv \<and>
   getDocument blankPdfEnv pdfFile = Inr blankPdfDocument \<and>
   cleanup blankPdfDocument = None \<and> destroy blankPdfDocument = None \<and>
   blankTextLayer blankPdfDocument \<and>
   snd (parse demoConfig blankPdfEnv pdfFile) = 0 \<and>
   fst (parse demoConfig blankPdfEnv pdfFile) =
     Failure \<lparr>code = ''PARSE_ERROR'', message = ''No readable native text found in PDF'',
              details = ThrownDetails (Error ''No readable native text found in PDF'')\<rparr>"
proof -
  have a: "hasDocument blankPdfEnv" "getDocument blankPdfEnv pdfFile = Inr blankPdfDocument"
    "cleanup blankPdfDocument = None" "destroy blankPdfDocument = None"
    by (simp_all add: env_defs)
  have b: "blankTextLayer blankPdfDocument"
    by (simp add: blankTextLayer_def blankPage_def blankPdfDocument_def isSpace_def)
  note t = pdf_no_ocr_blank_text_failure[OF pdfFile_route, of demoConfig blankPdfEnv
      blankPdfDocument "[]"]
  have c: "snd (parse demoConfig blankPdfEnv pdfFile) = 0" using t by (rule conjunct1)
  have d: "fst (parse demoConfig blankPdfEnv pdfFile) =
     Failure \<lparr>code = ''PARSE_ERROR'', message = ''No readable native text found in PDF'',
              details = ThrownDetails (Error ''No readable native text found in PDF'')\<rparr>"
    using t[THEN conjunct2, THEN conjunct2, THEN conjunct2, THEN conjunct2] a b pdfFile_valid
    by simp
  show ?thesis using a b c d pdfFile_route pdfFile_valid by (intro conjI)
qed


end
